theory Spec2Isabelle
  imports
    Complex_Main
    "HOL-Library.Char_ord"
    "HOL-Library.List_Lexorder"
    "HOL-Library.Multiset"
begin

section \<open>Evidence token cache (src/lib/verify-store.js)\<close>

text \<open>
  The class \<open>Store\<close> wraps one JavaScript \<open>Map\<close> from tokens to entries
  \<open>{ zipBuffer, manifest, exp }\<close>. The map is modelled as a partial function, the
  mutation of \<open>this.map\<close> as explicit state passing, and the clock \<open>Date.now()\<close>
  (milliseconds since the epoch) as an argument of each operation. The manifest
  stored in an entry is opaque to the store, hence a type parameter.
\<close>

type_synonym bytes = "char list"

record 'm entry =
  zipBuffer :: bytes
  manifest :: 'm
  exp :: int

type_synonym 'm store = "string \<rightharpoonup> 'm entry"

definition put :: "'m store \<Rightarrow> int \<Rightarrow> string \<Rightarrow> bytes \<Rightarrow> 'm \<Rightarrow> int \<Rightarrow> 'm store" where
  "put s now token zb mf ttlMin =
     (let e = now + (ttlMin * 60 * 1000)
      in s(token \<mapsto> \<lparr>zipBuffer = zb, manifest = mf, exp = e\<rparr>))"

text \<open>
  \<open>get\<close> returns the entry (or \<open>None\<close> for JavaScript's \<open>null\<close>) together with
  the store it leaves behind.
\<close>

definition get :: "'m store \<Rightarrow> int \<Rightarrow> string \<Rightarrow> 'm entry option \<times> 'm store" where
  "get s now token =
     (case s token of
        None \<Rightarrow> (None, s)
      | Some v \<Rightarrow> if now > exp v then (None, s(token := None)) else (Some v, s))"

section \<open>JavaScript values and strings\<close>

text \<open>
  The optional fields of the normalised records are dynamically typed: a flag may
  be a boolean, a string, a number, or absent (the KYC review date alone is typed
  as a text or absent, since it is handed to \<open>parseISO\<close>). \<open>truthy\<close> is JavaScript's
  \<open>ToBoolean\<close>, \<open>js_or\<close> the operator \<open>||\<close>, \<open>js_String\<close> the conversion
  \<open>String(v)\<close> (and \<open>v.toString()\<close> where the source calls it on a truthy value).
  Numbers are integers here. Strings are byte lists; the case mappings act on the
  ASCII letters, as \<open>toLowerCase\<close> and \<open>toUpperCase\<close> do on ASCII text: a
  capital letter and its small letter differ in the bit of value 32 only. On
  letters outside ASCII JavaScript does more (\<open>toUpperCase\<close> turns the dotless i,
  U+0131, into \<open>I\<close>), which the model does not follow: a statement that depends on
  \<open>toUpperCase\<close> assumes that the text is ASCII.
\<close>

datatype jsval = JUndefined | JNull | JBool bool | JNum int | JStr string

fun truthy :: "jsval \<Rightarrow> bool" where
  "truthy JUndefined = False"
| "truthy JNull = False"
| "truthy (JBool b) = b"
| "truthy (JNum n) = (n \<noteq> 0)"
| "truthy (JStr s) = (s \<noteq> [])"

definition js_or :: "jsval \<Rightarrow> jsval \<Rightarrow> jsval" where
  "js_or a b = (if truthy a then a else b)"

fun digits :: "nat \<Rightarrow> string" where
  "digits n = (if n < 10 then [''0123456789'' ! n]
               else digits (n div 10) @ [''0123456789'' ! (n mod 10)])"

fun js_String :: "jsval \<Rightarrow> string" where
  "js_String JUndefined = ''undefined''"
| "js_String JNull = ''null''"
| "js_String (JBool b) = (if b then ''true'' else ''false'')"
| "js_String (JNum n) = (if n < 0 then CHR ''-'' # digits (nat (- n)) else digits (nat n))"
| "js_String (JStr s) = s"

definition lower_char :: "char \<Rightarrow> char" where
  "lower_char c =
     (if CHR ''A'' \<le> c \<and> c \<le> CHR ''Z''
      then (case c of Char b0 b1 b2 b3 b4 b5 b6 b7 \<Rightarrow> Char b0 b1 b2 b3 b4 True b6 b7)
      else c)"

definition upper_char :: "char \<Rightarrow> char" where
  "upper_char c =
     (if CHR ''a'' \<le> c \<and> c \<le> CHR ''z''
      then (case c of Char b0 b1 b2 b3 b4 b5 b6 b7 \<Rightarrow> Char b0 b1 b2 b3 b4 False b6 b7)
      else c)"

definition toLowerCase :: "string \<Rightarrow> string" where
  "toLowerCase s = map lower_char s"

definition toUpperCase :: "string \<Rightarrow> string" where
  "toUpperCase s = map upper_char s"

text \<open>\<open>s.includes(sub)\<close>: \<open>sub\<close> occurs in \<open>s\<close> as a contiguous substring.\<close>

fun str_includes :: "string \<Rightarrow> string \<Rightarrow> bool" where
  "str_includes [] sub = (sub = [])"
| "str_includes (x # xs) sub = (take (length sub) (x # xs) = sub \<or> str_includes xs sub)"

section \<open>Calendar dates (date-fns)\<close>

text \<open>
  The scorer reads dates with date-fns: \<open>parseISO\<close>, \<open>isAfter\<close> and
  \<open>differenceInCalendarDays\<close>. date-fns is a third-party library, not code of
  the repository. Its functions are modelled here on the date form of the data
  model, the ISO-8601 calendar date \<open>YYYY-MM-DD\<close>. Such a date is parsed to
  midnight of its day, so a \<open>Date\<close> is the number of its day: \<open>parseISO\<close>
  yields the day number of a well-formed, existing date (days counted from
  0000-01-01 in the proleptic Gregorian calendar; only differences and comparisons
  of day numbers are ever used) and \<open>None\<close>, standing for JavaScript's
  \<open>Invalid Date\<close>, for any other text. A number that is \<open>NaN\<close> in the source is
  \<open>None\<close> as well, and a comparison with \<open>NaN\<close> is false.

  date-fns reads more than calendar dates (date-times, the basic form, week and
  ordinal dates, a year alone), and such texts are not modelled: on them the
  model's \<open>Invalid Date\<close> need not be what the library returns. Every statement
  below that depends on what a date text means therefore assumes that the date
  texts of its input are calendar dates (\<open>calendar_date\<close>, \<open>dated\<close>). All values
  that reach \<open>parseISO\<close> are strings by their type, so the call does not raise.
\<close>

definition digit_val :: "char \<Rightarrow> nat option" where
  "digit_val c = (if CHR ''0'' \<le> c \<and> c \<le> CHR ''9'' then Some (of_char c - 48) else None)"

definition leap_year :: "nat \<Rightarrow> bool" where
  "leap_year y = (y mod 4 = 0 \<and> (y mod 100 \<noteq> 0 \<or> y mod 400 = 0))"

definition days_in_month :: "nat \<Rightarrow> nat \<Rightarrow> nat" where
  "days_in_month y m =
     (if m = 2 then (if leap_year y then 29 else 28)
      else if m = 4 \<or> m = 6 \<or> m = 9 \<or> m = 11 then 30 else 31)"

definition days_before_year :: "nat \<Rightarrow> int" where
  "days_before_year y =
     365 * int y + (int y + 3) div 4 - (int y + 99) div 100 + (int y + 399) div 400"

definition days_before_month :: "nat \<Rightarrow> nat \<Rightarrow> nat" where
  "days_before_month y m =
     [0, 31, 59, 90, 120, 151, 181, 212, 243, 273, 304, 334] ! (m - 1)
     + (if leap_year y \<and> 2 < m then 1 else 0)"

definition day_number :: "nat \<times> nat \<times> nat \<Rightarrow> int" where
  "day_number ymd =
     (case ymd of (y, m, d) \<Rightarrow> days_before_year y + int (days_before_month y m) + int d - 1)"

definition valid_ymd :: "nat \<times> nat \<times> nat \<Rightarrow> bool" where
  "valid_ymd ymd =
     (case ymd of (y, m, d) \<Rightarrow> 1 \<le> m \<and> m \<le> 12 \<and> 1 \<le> d \<and> d \<le> days_in_month y m)"

fun parse_ymd :: "string \<Rightarrow> (nat \<times> nat \<times> nat) option" where
  "parse_ymd [y1, y2, y3, y4, s1, m1, m2, s2, d1, d2] =
     (if s1 = CHR ''-'' \<and> s2 = CHR ''-'' then
        (case those (map digit_val [y1, y2, y3, y4, m1, m2, d1, d2]) of
           Some [a, b, c, d, e, f, g, h] \<Rightarrow>
             (let ymd = (1000 * a + 100 * b + 10 * c + d, 10 * e + f, 10 * g + h)
              in if valid_ymd ymd then Some ymd else None)
         | _ \<Rightarrow> None)
      else None)"
| "parse_ymd _ = None"

definition parseISO :: "string \<Rightarrow> int option" where
  "parseISO s = map_option day_number (parse_ymd s)"

definition isAfter :: "int option \<Rightarrow> int option \<Rightarrow> bool" where
  "isAfter a b = (case (a, b) of (Some x, Some y) \<Rightarrow> x > y | _ \<Rightarrow> False)"

definition differenceInCalendarDays :: "int option \<Rightarrow> int option \<Rightarrow> int option" where
  "differenceInCalendarDays a b = (case (a, b) of (Some x, Some y) \<Rightarrow> Some (x - y) | _ \<Rightarrow> None)"

section \<open>Risk scoring engine (src/lib/rules.js)\<close>

record client =
  client_id :: string
  pep_flag :: jsval
  sanctions_flag :: jsval
  kyc_last_reviewed_at :: "string option"
  delivery_channel :: jsval
  services :: jsval
  residency_country :: jsval

record tx =
  tx_client_id :: string
  date :: string
  direction :: string
  tx_method :: string
  currency :: string
  amount :: rat
  counterparty_country :: jsval

record lookback =
  start :: string
  finish :: string

text \<open>
  \<open>finish\<close> is the field \<open>lookback.end\<close>; \<open>tx_client_id\<close> and \<open>tx_method\<close> are
  the fields \<open>client_id\<close> and \<open>method\<close> of a transaction; \<open>reason_text\<close> is the
  field \<open>text\<close> of a reason and \<open>rtype\<close> the field \<open>type\<close> that the result adds
  to each reason. Texts that the source writes with characters outside ASCII hold
  their UTF-8 bytes. An amount is a rational number.
\<close>

record reason_obj =
  family :: string
  reason_text :: string
  points :: int

record scored_reason = reason_obj +
  rtype :: string

record risk_score =
  rs_client_id :: string
  score :: int
  band :: string
  reasons :: "scored_reason list"

record banding_obj =
  High :: string
  Medium :: string
  Low :: string

record rules_meta =
  ruleset_id :: string
  meta_lookback :: lookback
  corridors :: "string list"
  banding :: banding_obj

record score_output =
  scores :: "risk_score list"
  rulesMeta :: rules_meta

definition HR_COUNTRIES :: "string list" where
  "HR_COUNTRIES = [''RU'', ''CN'', ''HK'', ''AE'', ''IN'', ''IR'']"

definition toBand :: "int \<Rightarrow> string" where
  "toBand sc = (if sc \<ge> 30 then ''High'' else if sc \<ge> 15 then ''Medium'' else ''Low'')"

definition daysBetween :: "string \<Rightarrow> string \<Rightarrow> int option" where
  "daysBetween a b = map_option abs (differenceInCalendarDays (parseISO a) (parseISO b))"

text \<open>\<open>x <= n\<close> and \<open>x > n\<close> on a number that may be \<open>NaN\<close>.\<close>

definition num_le :: "int option \<Rightarrow> int \<Rightarrow> bool" where
  "num_le x n = (case x of None \<Rightarrow> False | Some v \<Rightarrow> v \<le> n)"

definition num_gt :: "int option \<Rightarrow> int \<Rightarrow> bool" where
  "num_gt x n = (case x of None \<Rightarrow> False | Some v \<Rightarrow> v > n)"

definition reason :: "string \<Rightarrow> string \<Rightarrow> int \<Rightarrow> reason_obj" where
  "reason fam txt pts = \<lparr>family = fam, reason_text = txt, points = pts\<rparr>"

subsection \<open>Indexing the transactions by client\<close>

text \<open>
  The first loop of \<open>scoreAll\<close> fills the \<open>Map\<close> \<open>txByClient\<close>: a transaction
  inside the lookback is pushed onto the array stored under its client id, which
  is created empty on first use (so the lookup that follows always finds it).
\<close>

definition in_lookback :: "lookback \<Rightarrow> tx \<Rightarrow> bool" where
  "in_lookback lb t =
     (let lbStart = parseISO (start lb); td = parseISO (date t)
      in isAfter td lbStart \<or> date t = start lb)"

definition index_tx :: "lookback \<Rightarrow> tx \<Rightarrow> (string \<rightharpoonup> tx list) \<Rightarrow> (string \<rightharpoonup> tx list)" where
  "index_tx lb t m =
     (if in_lookback lb t then
        (let m1 = (if m (tx_client_id t) = None then m(tx_client_id t \<mapsto> []) else m)
         in case m1 (tx_client_id t) of
              None \<Rightarrow> m1
            | Some arr \<Rightarrow> m1(tx_client_id t \<mapsto> arr @ [t]))
      else m)"

definition txByClient :: "lookback \<Rightarrow> tx list \<Rightarrow> (string \<rightharpoonup> tx list)" where
  "txByClient lb txs = fold (index_tx lb) txs Map.empty"

subsection \<open>Scoring one client\<close>

text \<open>
  The loop body keeps two variables, \<open>score\<close> and \<open>reasons\<close>; a \<open>tally\<close> is the
  pair of them. A rule that fires runs \<open>score += k; reasons.push(r)\<close>, which is
  \<open>hit k r\<close>: the number added to the score and the points written into the
  reason are two literals of the source and stay two arguments here.
\<close>

type_synonym tally = "int \<times> reason_obj list"

definition hit :: "int \<Rightarrow> reason_obj \<Rightarrow> tally \<Rightarrow> tally" where
  "hit k r a = (fst a + k, snd a @ [r])"

definition when_hit :: "bool \<Rightarrow> int \<Rightarrow> reason_obj \<Rightarrow> tally \<Rightarrow> tally" where
  "when_hit b k r a = (if b then hit k r a else a)"

definition pep :: "client \<Rightarrow> bool" where
  "pep c = (toLowerCase (js_String (js_or (pep_flag c) (JStr ''''))) = ''true'')"

definition sanc :: "client \<Rightarrow> bool" where
  "sanc c = (toLowerCase (js_String (js_or (sanctions_flag c) (JStr ''''))) = ''true'')"

text \<open>
  The KYC review date is a date text or absent (\<open>None\<close>); an absent value and the
  empty text are falsy, so the rule is skipped for them.
\<close>

definition kyc_stale :: "lookback \<Rightarrow> client \<Rightarrow> bool" where
  "kyc_stale lb c =
     (case kyc_last_reviewed_at c of
        None \<Rightarrow> False
      | Some s \<Rightarrow>
          if s = [] then False
          else (let kd = parseISO s
                in if kd = None then False
                   else (let latest = parseISO (finish lb);
                             days = differenceInCalendarDays latest kd
                         in num_gt days 365)))"

definition chan :: "client \<Rightarrow> string" where
  "chan c = toLowerCase (js_String (js_or (delivery_channel c) (JStr '''')))"

definition svc :: "client \<Rightarrow> string" where
  "svc c = toLowerCase (js_String (js_or (services c) (JStr '''')))"

definition rc :: "client \<Rightarrow> string" where
  "rc c = toUpperCase (js_String (js_or (residency_country c) (JStr '''')))"

definition profile_signals :: "lookback \<Rightarrow> client \<Rightarrow> tally \<Rightarrow> tally" where
  "profile_signals lb c a0 =
     (let a1 = when_hit (pep c) 20 (reason ''profile'' ''PEP flag'' 20) a0;
          a2 = when_hit (sanc c) 25 (reason ''profile'' ''Sanctions flag'' 25) a1;
          a3 = when_hit (kyc_stale lb c) 5 (reason ''profile'' ''Stale KYC > 12 months'' 5) a2;
          a4 = when_hit (str_includes (chan c) ''online'') 3
                 (reason ''profile'' ''Online channel'' 3) a3;
          a5 = when_hit (str_includes (svc c) ''remittance'') 6
                 (reason ''profile'' ''Remittance service'' 6) a4;
          a6 = when_hit (str_includes (svc c) ''property'') 4
                 (reason ''profile'' ''Property service'' 4) a5;
          a7 = when_hit (rc c \<in> set HR_COUNTRIES) 8
                 (reason ''profile'' ''High-risk residency'' 8) a6
      in a7)"

definition cashIn :: "tx list \<Rightarrow> tx list" where
  "cashIn txlist =
     filter (\<lambda>t. direction t = ''in'' \<and> tx_method t = ''cash'' \<and> currency t = ''AUD''
                \<and> amount t \<ge> 9600 \<and> amount t \<le> 9999) txlist"

text \<open>
  The structuring loop: for each index \<open>i\<close>, the window holds \<open>cashIn[i]\<close> and
  every later element within seven days of it; the loop stops at the first window
  of four or more.
\<close>

fun structured :: "tx list \<Rightarrow> bool" where
  "structured [] = False"
| "structured (x # rest) =
     (let win = x # filter (\<lambda>t. num_le (daysBetween (date x) (date t)) 7) rest
      in if length win \<ge> 4 then True else structured rest)"

definition hr_has :: "jsval \<Rightarrow> bool" where
  "hr_has v = (case v of JStr s \<Rightarrow> s \<in> set HR_COUNTRIES | _ \<Rightarrow> False)"

definition intlHR :: "tx list \<Rightarrow> tx list" where
  "intlHR txlist =
     filter (\<lambda>t. direction t = ''out'' \<and> hr_has (js_or (counterparty_country t) (JStr ''''))
                \<and> currency t = ''AUD'') txlist"

definition largeAU :: "tx list \<Rightarrow> tx list" where
  "largeAU txlist =
     filter (\<lambda>t. currency t = ''AUD'' \<and> amount t \<ge> 100000
                \<and> (\<not> truthy (counterparty_country t) \<or> counterparty_country t = JStr ''AU''))
       txlist"

definition structuring_text :: string where
  "structuring_text =
     ''Structuring pattern ('' @ [CHR 0xE2, CHR 0x89, CHR 0xA5] @ ''4 cash deposits 9.6''
     @ [CHR 0xE2, CHR 0x80, CHR 0x93] @ ''9.999k in 7 days)''"

definition corridor_text :: string where
  "corridor_text =
     ''High-risk corridor transfers ('' @ [CHR 0xE2, CHR 0x89, CHR 0xA5] @ ''2; one ''
     @ [CHR 0xE2, CHR 0x89, CHR 0xA5] @ '' 20k)''"

definition large_text :: string where
  "large_text = ''Large domestic transfer '' @ [CHR 0xE2, CHR 0x89, CHR 0xA5] @ '' 100k''"

definition behaviour_signals :: "tx list \<Rightarrow> tally \<Rightarrow> tally" where
  "behaviour_signals txlist a7 =
     (let a8 = when_hit (structured (cashIn txlist)) 12
                 (reason ''behaviour'' structuring_text 12) a7;
          a9 = when_hit (length (intlHR txlist) \<ge> 2
                         \<and> list_ex (\<lambda>t. amount t \<ge> 20000) (intlHR txlist)) 10
                 (reason ''behaviour'' corridor_text 10) a8;
          a10 = when_hit (length (largeAU txlist) \<ge> 1) 8
                  (reason ''behaviour'' large_text 8) a9
      in a10)"

definition tag_reason :: "reason_obj \<Rightarrow> scored_reason" where
  "tag_reason r = \<lparr>family = family r, reason_text = reason_text r, points = points r,
                    rtype = ''reason''\<rparr>"

definition score_client :: "lookback \<Rightarrow> client \<Rightarrow> tx list \<Rightarrow> risk_score" where
  "score_client lb c txlist =
     (let a = behaviour_signals txlist (profile_signals lb c (0, []))
      in \<lparr>rs_client_id = client_id c, score = fst a, band = toBand (fst a),
          reasons = map tag_reason (snd a)\<rparr>)"

text \<open>
  The second loop. \<open>sort\<close> sorts the array held in the \<open>Map\<close> in place, so the
  map goes through the loop: a later client with the same id finds the array
  sorted. \<open>Array.prototype.sort\<close> is stable, as insertion sort is. The comparison
  \<open>a.date.localeCompare(b.date)\<close> is modelled by the lexicographic order of the
  strings, which is how \<open>localeCompare\<close> orders texts of digits and hyphens such
  as calendar dates. On other texts \<open>localeCompare\<close> is a collation that may rate
  two different texts as equal, which the order of the strings never does: a
  statement that depends on the order of the sorted array assumes calendar dates.
\<close>

fun score_loop :: "lookback \<Rightarrow> (string \<rightharpoonup> tx list) \<Rightarrow> client list \<Rightarrow> risk_score list" where
  "score_loop lb m [] = []"
| "score_loop lb m (c # cs) =
     (case m (client_id c) of
        None \<Rightarrow> score_client lb c (sort_key date []) # score_loop lb m cs
      | Some arr \<Rightarrow>
          (let txlist = sort_key date arr
           in score_client lb c txlist # score_loop lb (m(client_id c \<mapsto> txlist)) cs))"

definition scoreAll :: "client list \<Rightarrow> tx list \<Rightarrow> lookback \<Rightarrow> score_output" where
  "scoreAll clients txs lb =
     (let results = score_loop lb (txByClient lb txs) clients
      in \<lparr>scores = results,
          rulesMeta = \<lparr>ruleset_id = ''dnfbp-2025.11'', meta_lookback = lb,
                       corridors = HR_COUNTRIES,
                       banding = \<lparr>High = ''>=30'', Medium = ''>=15'', Low = ''<15''\<rparr>\<rparr>\<rparr>)"

section \<open>Evidence manifest builder (src/lib/manifest.js)\<close>

text \<open>
  \<open>buildManifest\<close> calls into the platform: the clock, Node's \<open>crypto\<close> hash,
  \<open>JSON.stringify\<close>, \<open>Buffer\<close>'s base64 codec and tweetnacl's \<open>sign.detached\<close>.
  None of them is code of the repository, so they are taken as parameters,
  bundled in the record \<open>platform\<close>. \<open>sign_detached\<close> is the one call inside the
  \<open>try\<close> block that can throw (tweetnacl raises on a secret key of the wrong
  size); its exception is the \<open>Inl\<close> branch of its result.
\<close>

record file_entry =
  name :: string
  bytes :: nat
  sha256 :: string

record signing_block =
  key_id :: string
  signature :: string

record manifest_obj =
  created_utc :: string
  hash_algo :: string
  m_ruleset_id :: string
  files :: "file_entry list"
  signing :: "signing_block option"

record config =
  SIGN_PRIVATE_KEY :: string
  SIGN_PUBLIC_KEY :: string

record platform =
  now_iso :: string
  sha256_digest :: "bytes \<Rightarrow> bytes"
  json_stringify :: "file_entry list \<Rightarrow> string \<Rightarrow> string \<Rightarrow> bytes"
  base64_decode :: "string \<Rightarrow> bytes"
  base64_encode :: "bytes \<Rightarrow> string"
  sign_detached :: "bytes \<Rightarrow> bytes \<Rightarrow> string + bytes"

text \<open>\<open>digest('hex')\<close>: two lower-case hexadecimal digits per byte.\<close>

definition hex_digit :: "nat \<Rightarrow> char" where
  "hex_digit n = ''0123456789abcdef'' ! (n mod 16)"

definition hex :: "bytes \<Rightarrow> string" where
  "hex bs = concat (map (\<lambda>b. [hex_digit (of_char b div 16), hex_digit (of_char b mod 16)]) bs)"

definition sha256Hex :: "platform \<Rightarrow> bytes \<Rightarrow> string" where
  "sha256Hex P buf = hex (sha256_digest P buf)"

text \<open>
  \<open>namedFiles\<close> is a JavaScript object; \<open>Object.entries\<close> lists its keys with
  their values in the object's iteration order, which is the association list
  the model takes. A configured key is a non-empty string (\<open>''\<close> is falsy).
\<close>

definition buildManifest ::
  "platform \<Rightarrow> config \<Rightarrow> (string \<times> bytes) list \<Rightarrow> rules_meta \<Rightarrow> manifest_obj" where
  "buildManifest P cfg namedFiles rm =
     (let fs = map (\<lambda>(nm, buf). \<lparr>name = nm, bytes = length buf, sha256 = sha256Hex P buf\<rparr>)
                 namedFiles;
          mf = \<lparr>created_utc = now_iso P, hash_algo = ''SHA-256'',
                m_ruleset_id = ruleset_id rm, files = fs, signing = None\<rparr>
      in if SIGN_PRIVATE_KEY cfg \<noteq> [] \<and> SIGN_PUBLIC_KEY cfg \<noteq> [] then
           (let msg = json_stringify P fs (created_utc mf) (m_ruleset_id mf);
                secret = base64_decode P (SIGN_PRIVATE_KEY cfg)
            in case sign_detached P msg secret of
                 Inl _ \<Rightarrow> mf
               | Inr sg \<Rightarrow>
                   mf\<lparr>signing := Some \<lparr>key_id = ''ed25519:app'',
                                         signature = base64_encode P sg\<rparr>\<rparr>)
         else mf)"

text \<open>
  A stand-in platform for concrete runs of \<open>buildManifest\<close>: the digest is the
  reversed input, the serialisation joins the file names with the two strings, the
  base64 codec is the identity, and signing fails unless the secret key has 64
  bytes, as tweetnacl's does.
\<close>

definition example_platform :: platform where
  "example_platform =
     \<lparr>now_iso = ''2025-11-01T00:00:00.000Z'',
      sha256_digest = rev,
      json_stringify = (\<lambda>fs created rid. concat (map name fs) @ created @ rid),
      base64_decode = (\<lambda>s. s),
      base64_encode = (\<lambda>b. b),
      sign_detached = (\<lambda>msg secret. if length secret = 64 then Inr (rev msg)
                                        else Inl ''bad secret key size'')\<rparr>"

definition example_meta :: rules_meta where
  "example_meta =
     \<lparr>ruleset_id = ''dnfbp-2025.11'',
      meta_lookback = \<lparr>start = ''2024-01-01'', finish = ''2025-06-30''\<rparr>,
      corridors = HR_COUNTRIES,
      banding = \<lparr>High = ''>=30'', Medium = ''>=15'', Low = ''<15''\<rparr>\<rparr>"

text \<open>Clients, transactions and a lookback window for concrete runs of \<open>scoreAll\<close>.\<close>

definition plain_client :: "string \<Rightarrow> client" where
  "plain_client cid =
     \<lparr>client_id = cid, pep_flag = JUndefined, sanctions_flag = JUndefined,
      kyc_last_reviewed_at = None, delivery_channel = JUndefined,
      services = JUndefined, residency_country = JUndefined\<rparr>"

definition cash_deposit :: "string \<Rightarrow> string \<Rightarrow> tx" where
  "cash_deposit cid d =
     \<lparr>tx_client_id = cid, date = d, direction = ''in'', tx_method = ''cash'',
      currency = ''AUD'', amount = 9700, counterparty_country = JUndefined\<rparr>"

definition wire_out :: "string \<Rightarrow> string \<Rightarrow> rat \<Rightarrow> string \<Rightarrow> tx" where
  "wire_out cid d amt cc =
     \<lparr>tx_client_id = cid, date = d, direction = ''out'', tx_method = ''wire'',
      currency = ''AUD'', amount = amt, counterparty_country = JStr cc\<rparr>"

definition example_lookback :: lookback where
  "example_lookback = \<lparr>start = ''2024-01-01'', finish = ''2025-06-30''\<rparr>"

section \<open>Notions used in the statements\<close>

text \<open>A tally is consistent when the score is the sum of the points of the reasons.\<close>

definition tally_ok :: "tally \<Rightarrow> bool" where
  "tally_ok a = (fst a = sum_list (map points (snd a)))"

text \<open>The array a \<open>Map\<close> of transaction arrays holds for a client id, empty when absent.\<close>

definition lookup_arr :: "(string \<rightharpoonup> tx list) \<Rightarrow> string \<Rightarrow> tx list" where
  "lookup_arr m cid = (case m cid of None \<Rightarrow> [] | Some arr \<Rightarrow> arr)"

text \<open>
  The transactions that the first loop of the source files under the id of a
  client, in input order.
\<close>

definition client_txs :: "lookback \<Rightarrow> tx list \<Rightarrow> client \<Rightarrow> tx list" where
  "client_txs lb txs c = filter (\<lambda>t. in_lookback lb t \<and> tx_client_id t = client_id c) txs"

text \<open>
  The reasons the profile rules and the behavioural rules push, in the order of the
  source.
\<close>

definition profile_reasons :: "lookback \<Rightarrow> client \<Rightarrow> reason_obj list" where
  "profile_reasons lb c =
     (if pep c then [reason ''profile'' ''PEP flag'' 20] else [])
   @ (if sanc c then [reason ''profile'' ''Sanctions flag'' 25] else [])
   @ (if kyc_stale lb c then [reason ''profile'' ''Stale KYC > 12 months'' 5] else [])
   @ (if str_includes (chan c) ''online'' then [reason ''profile'' ''Online channel'' 3] else [])
   @ (if str_includes (svc c) ''remittance'' then [reason ''profile'' ''Remittance service'' 6] else [])
   @ (if str_includes (svc c) ''property'' then [reason ''profile'' ''Property service'' 4] else [])
   @ (if rc c \<in> set HR_COUNTRIES then [reason ''profile'' ''High-risk residency'' 8] else [])"

definition behaviour_reasons :: "tx list \<Rightarrow> reason_obj list" where
  "behaviour_reasons txlist =
     (if structured (cashIn txlist) then [reason ''behaviour'' structuring_text 12] else [])
   @ (if length (intlHR txlist) \<ge> 2 \<and> list_ex (\<lambda>t. amount t \<ge> 20000) (intlHR txlist)
      then [reason ''behaviour'' corridor_text 10] else [])
   @ (if length (largeAU txlist) \<ge> 1 then [reason ''behaviour'' large_text 8] else [])"

text \<open>The order of dates as triples of year, month and day, and the days of a year.\<close>

definition ymd_less :: "nat \<times> nat \<times> nat \<Rightarrow> nat \<times> nat \<times> nat \<Rightarrow> bool" where
  "ymd_less p q =
     (case (p, q) of ((y, m, d), (y', m', d')) \<Rightarrow>
        y < y' \<or> y = y' \<and> (m < m' \<or> m = m' \<and> d < d'))"

definition year_length :: "nat \<Rightarrow> nat" where
  "year_length y = (if leap_year y then 366 else 365)"

text \<open>
  A date text is on or after another when both are calendar dates and the day of
  the first is not before the day of the second.
\<close>

definition on_or_after :: "string \<Rightarrow> string \<Rightarrow> bool" where
  "on_or_after d s =
     (case parseISO d of
        None \<Rightarrow> False
      | Some a \<Rightarrow> (case parseISO s of None \<Rightarrow> False | Some b \<Rightarrow> b \<le> a))"

text \<open>
  The input the date rules are stated for: a text is a calendar date when it has
  the form \<open>YYYY-MM-DD\<close> and names a day that exists; an input is dated when the
  lookback start and the date of every transaction are calendar dates.
\<close>

definition calendar_date :: "string \<Rightarrow> bool" where
  "calendar_date s = (parse_ymd s \<noteq> None)"

definition dated :: "lookback \<Rightarrow> tx list \<Rightarrow> bool" where
  "dated lb txs = (calendar_date (start lb) \<and> (\<forall>t \<in> set txs. calendar_date (date t)))"

text \<open>
  The transactions of a client inside the lookback window, as the specification
  words it: those that carry the client's id and are dated on or after the
  lookback start, in input order.
\<close>

definition window_txs :: "lookback \<Rightarrow> tx list \<Rightarrow> client \<Rightarrow> tx list" where
  "window_txs lb txs c =
     filter (\<lambda>t. on_or_after (date t) (start lb) \<and> tx_client_id t = client_id c) txs"

text \<open>
  A client without profile signals, as the rule catalogue of the specification
  words them: neither flag reads \<open>true\<close>, the KYC review is not more than 365
  days before the lookback end, the channel does not mention \<open>online\<close>, the
  services mention neither \<open>remittance\<close> nor \<open>property\<close>, and the residency is
  not a high-risk country. \<open>field_text\<close> is the text of an optional field, empty
  when the field is absent. \<open>typed_profile\<close> says that the profile is within the
  modelled part of the date and text functions: a KYC review date that is given
  is a calendar date, and so is then the lookback end it is compared with, and
  the channel, the services and the residency are ASCII text.
\<close>

definition field_text :: "jsval \<Rightarrow> string" where
  "field_text v = (if truthy v then js_String v else [])"

definition flag_is_true :: "jsval \<Rightarrow> bool" where
  "flag_is_true v = (toLowerCase (js_String v) = ''true'')"

definition kyc_over_a_year :: "lookback \<Rightarrow> client \<Rightarrow> bool" where
  "kyc_over_a_year lb c =
     (case kyc_last_reviewed_at c of
        None \<Rightarrow> False
      | Some s \<Rightarrow>
          (case parseISO s of
             None \<Rightarrow> False
           | Some k \<Rightarrow> (case parseISO (finish lb) of None \<Rightarrow> False | Some e \<Rightarrow> 365 < e - k)))"

definition no_profile_signal :: "lookback \<Rightarrow> client \<Rightarrow> bool" where
  "no_profile_signal lb c =
     (\<not> flag_is_true (pep_flag c) \<and> \<not> flag_is_true (sanctions_flag c)
      \<and> \<not> kyc_over_a_year lb c
      \<and> \<not> str_includes (toLowerCase (field_text (delivery_channel c))) ''online''
      \<and> \<not> str_includes (toLowerCase (field_text (services c))) ''remittance''
      \<and> \<not> str_includes (toLowerCase (field_text (services c))) ''property''
      \<and> toUpperCase (field_text (residency_country c)) \<notin> set HR_COUNTRIES)"

definition ascii_text :: "string \<Rightarrow> bool" where
  "ascii_text s = (\<forall>c \<in> set s. c \<le> CHR 0x7F)"

definition typed_profile :: "lookback \<Rightarrow> client \<Rightarrow> bool" where
  "typed_profile lb c =
     ((case kyc_last_reviewed_at c of
         None \<Rightarrow> True
       | Some s \<Rightarrow> s = [] \<or> (calendar_date s \<and> calendar_date (finish lb)))
      \<and> ascii_text (field_text (delivery_channel c))
      \<and> ascii_text (field_text (services c))
      \<and> ascii_text (field_text (residency_country c)))"

text \<open>
  The structuring rule as the specification words it. \<open>qualifying\<close> are the
  transactions of a client inside the lookback window that are cash, inbound, in
  AUD and of an amount from 9600 to 9999, in input order. \<open>within_7_days\<close> holds
  of two date texts that are calendar dates at most seven days apart.
  \<open>structuring_set\<close> says that some selection of at least four of the given
  transactions has dates that span at most seven days, which is to say that any
  two of the selected are within seven days of each other.
\<close>

definition qualifying :: "lookback \<Rightarrow> tx list \<Rightarrow> client \<Rightarrow> tx list" where
  "qualifying lb txs c =
     filter (\<lambda>t. on_or_after (date t) (start lb) \<and> tx_client_id t = client_id c
                \<and> tx_method t = ''cash'' \<and> direction t = ''in'' \<and> currency t = ''AUD''
                \<and> 9600 \<le> amount t \<and> amount t \<le> 9999) txs"

definition within_7_days :: "string \<Rightarrow> string \<Rightarrow> bool" where
  "within_7_days a b =
     (case (parseISO a, parseISO b) of (Some x, Some y) \<Rightarrow> \<bar>x - y\<bar> \<le> 7 | _ \<Rightarrow> False)"

definition structuring_set :: "tx list \<Rightarrow> bool" where
  "structuring_set q =
     (\<exists>ys \<in> set (subseqs q).
        4 \<le> length ys \<and> (\<forall>a \<in> set ys. \<forall>b \<in> set ys. within_7_days (date a) (date b)))"

text \<open>The same on multisets of transactions, for the proofs.\<close>

definition close_mset :: "tx multiset \<Rightarrow> bool" where
  "close_mset M = (\<forall>a \<in># M. \<forall>b \<in># M. within_7_days (date a) (date b))"

section \<open>The token cache: expiry and replacement\<close>

lemma get_absent: "s token = None \<Longrightarrow> get s now token = (None, s)"
  by (simp add: get_def)

lemma get_put_fresh:
  "now' \<le> now + ttlMin * 60 * 1000 \<Longrightarrow>
   get (put s now token zb mf ttlMin) now' token =
     (Some \<lparr>zipBuffer = zb, manifest = mf, exp = now + ttlMin * 60 * 1000\<rparr>,
      put s now token zb mf ttlMin)"
  by (simp add: get_def put_def)

lemma get_put_stale:
  "now + ttlMin * 60 * 1000 < now' \<Longrightarrow>
   get (put s now token zb mf ttlMin) now' token = (None, s(token := None))"
  by (simp add: get_def put_def)

text \<open>
  Claim C3. A \<open>get\<close> right after a \<open>put\<close> with a positive TTL (at the same instant,
  and at any later instant up to the expiry) returns exactly the entry that was
  stored and leaves the store as it is. A \<open>get\<close> after the expiry returns
  not-found and removes the entry; a later \<open>get\<close> of that token, whatever the
  time, returns not-found again and leaves the store as it found it, so that every
  subsequent \<open>get\<close> does the same.
\<close>

theorem get_after_put:
  fixes s :: "'m store"
  assumes "0 < ttlMin"
  shows "let e = now + ttlMin * 60 * 1000;
             s1 = put s now token zb mf ttlMin;
             stored = \<lparr>zipBuffer = zb, manifest = mf, exp = e\<rparr>
         in get s1 now token = (Some stored, s1)
          \<and> (now' \<le> e \<longrightarrow> get s1 now' token = (Some stored, s1))
          \<and> (e < now' \<longrightarrow>
               fst (get s1 now' token) = None
             \<and> snd (get s1 now' token) token = None
             \<and> get (snd (get s1 now' token)) now'' token = (None, snd (get s1 now' token)))"
proof -
  define e where "e = now + ttlMin * 60 * 1000"
  define s1 where "s1 = put s now token zb mf ttlMin"
  define stored :: "'m entry" where "stored = \<lparr>zipBuffer = zb, manifest = mf, exp = e\<rparr>"
  from assms have "now \<le> now + ttlMin * 60 * 1000" by simp
  then have same: "get s1 now token = (Some stored, s1)"
    unfolding e_def s1_def stored_def by (rule get_put_fresh)
  have early: "get s1 now' token = (Some stored, s1)" if "now' \<le> e"
    using that unfolding e_def s1_def stored_def by (rule get_put_fresh)
  have late: "fst (get s1 now' token) = None
            \<and> snd (get s1 now' token) token = None
            \<and> get (snd (get s1 now' token)) now'' token = (None, snd (get s1 now' token))"
    if "e < now'"
  proof -
    from that have "get s1 now' token = (None, s(token := None))"
      unfolding e_def s1_def by (rule get_put_stale)
    then show ?thesis by (simp add: get_absent)
  qed
  from same early late show ?thesis
    unfolding Let_def e_def [symmetric] s1_def [symmetric] stored_def [symmetric] by blast
qed

theorem get_after_put_witness:
  "get (put (Map.empty :: unit store) 1000 ''t0'' ''zip'' () 60) 1000 ''t0''
     = (Some \<lparr>zipBuffer = ''zip'', manifest = (), exp = 3601000\<rparr>,
        put Map.empty 1000 ''t0'' ''zip'' () 60)
   \<and> get (put (Map.empty :: unit store) 1000 ''t0'' ''zip'' () 60) 3601000 ''t0''
     = (Some \<lparr>zipBuffer = ''zip'', manifest = (), exp = 3601000\<rparr>,
        put Map.empty 1000 ''t0'' ''zip'' () 60)
   \<and> fst (get (put (Map.empty :: unit store) 1000 ''t0'' ''zip'' () 60) 3601001 ''t0'') = None
   \<and> snd (get (put (Map.empty :: unit store) 1000 ''t0'' ''zip'' () 60) 3601001 ''t0'') ''t0''
     = None
   \<and> fst (get (snd (get (put (Map.empty :: unit store) 1000 ''t0'' ''zip'' () 60) 3601001 ''t0''))
        1000 ''t0'') = None"
  using get_after_put [of 60 1000 "Map.empty :: unit store" "''t0''" "''zip''" "()" 3601000 0]
    get_after_put [of 60 1000 "Map.empty :: unit store" "''t0''" "''zip''" "()" 3601001 1000]
  by (simp add: Let_def)

lemma get_store_cases:
  "snd (get s now token) = s \<or>
   (snd (get s now token) = s(token := None) \<and> (\<exists>e. s token = Some e \<and> exp e < now))"
  by (cases "s token") (auto simp: get_def)

text \<open>
  Claim C9, as the store has it. A token maps to at most one entry, because the
  store is a map. \<open>get\<close> never alters an entry: it hands out the entry exactly as
  stored, and the store it leaves behind is the old one, or the old one without
  the expired entry of the token asked for. \<open>put\<close> touches no entry of another
  token. Under its own token it stores the new entry whatever was there before:
  the store has no insert-once guard, and a second \<open>put\<close> with a token that is
  still present replaces the entry.
\<close>

theorem store_entries:
  fixes s :: "'m store"
  shows "(\<forall>e. fst (get s now token) = Some e \<longrightarrow> s token = Some e)
       \<and> (\<forall>other. snd (get s now token) other = s other
              \<or> (other = token \<and> snd (get s now token) other = None
                  \<and> (\<exists>e. s token = Some e \<and> exp e < now)))
       \<and> (\<forall>other. other \<noteq> token \<longrightarrow> put s now token zb mf ttlMin other = s other)
       \<and> put s now token zb mf ttlMin token
           = Some \<lparr>zipBuffer = zb, manifest = mf, exp = now + ttlMin * 60 * 1000\<rparr>"
proof -
  have returned: "\<forall>e. fst (get s now token) = Some e \<longrightarrow> s token = Some e"
    by (cases "s token") (auto simp: get_def split: if_splits)
  have kept: "\<forall>other. snd (get s now token) other = s other
              \<or> (other = token \<and> snd (get s now token) other = None
                  \<and> (\<exists>e. s token = Some e \<and> exp e < now))"
    using get_store_cases [of s now token] by (auto split: if_splits)
  have others: "\<forall>other. other \<noteq> token \<longrightarrow> put s now token zb mf ttlMin other = s other"
    by (simp add: put_def)
  have own: "put s now token zb mf ttlMin token
           = Some \<lparr>zipBuffer = zb, manifest = mf, exp = now + ttlMin * 60 * 1000\<rparr>"
    by (simp add: put_def)
  from returned kept others own show ?thesis by blast
qed

theorem store_entries_witness:
  "fst (get (put (Map.empty :: unit store) 1000 ''a'' ''A'' () 60) 2000 ''a'')
     = Some \<lparr>zipBuffer = ''A'', manifest = (), exp = 3601000\<rparr>
   \<and> put (Map.empty :: unit store) 1000 ''a'' ''A'' () 60 ''a''
     = Some \<lparr>zipBuffer = ''A'', manifest = (), exp = 3601000\<rparr>
   \<and> snd (get (put (Map.empty :: unit store) 1000 ''a'' ''A'' () 60) 2000 ''a'') ''a''
     = Some \<lparr>zipBuffer = ''A'', manifest = (), exp = 3601000\<rparr>
   \<and> put (put (Map.empty :: unit store) 1000 ''a'' ''A'' () 60) 1500 ''b'' ''B'' () 60 ''a''
     = Some \<lparr>zipBuffer = ''A'', manifest = (), exp = 3601000\<rparr>"
  using store_entries [of "put (Map.empty :: unit store) 1000 ''a'' ''A'' () 60" 2000 "''a''"
                          "''B''" "()" 60]
    store_entries [of "put (Map.empty :: unit store) 1000 ''a'' ''A'' () 60" 1500 "''b''"
                          "''B''" "()" 60]
  by (simp add: put_def get_def)

text \<open>
  The claim as stated fails: a second \<open>put\<close> under a token that is present and
  not expired replaces the entry stored first.
\<close>

theorem put_twice_counterexample:
  "fst (get (put (Map.empty :: unit store) 1000 ''a'' ''first'' () 60) 3000 ''a'')
     = Some \<lparr>zipBuffer = ''first'', manifest = (), exp = 3601000\<rparr>
   \<and> fst (get (put (put (Map.empty :: unit store) 1000 ''a'' ''first'' () 60)
                 2000 ''a'' ''second'' () 60) 3000 ''a'')
     = Some \<lparr>zipBuffer = ''second'', manifest = (), exp = 3602000\<rparr>"
  by (simp add: put_def get_def)

section \<open>The manifest: digests and signing\<close>

lemma buildManifest_files:
  "files (buildManifest P cfg namedFiles rm) =
     map (\<lambda>(nm, buf). \<lparr>name = nm, bytes = length buf, sha256 = sha256Hex P buf\<rparr>) namedFiles"
  by (simp add: buildManifest_def Let_def split: sum.split)

lemma buildManifest_hash_algo: "hash_algo (buildManifest P cfg namedFiles rm) = ''SHA-256''"
  by (simp add: buildManifest_def Let_def split: sum.split)

lemma buildManifest_unsigned:
  "SIGN_PRIVATE_KEY cfg = [] \<or> SIGN_PUBLIC_KEY cfg = [] \<Longrightarrow>
   buildManifest P cfg namedFiles rm =
     \<lparr>created_utc = now_iso P, hash_algo = ''SHA-256'', m_ruleset_id = ruleset_id rm,
      files = map (\<lambda>(nm, buf). \<lparr>name = nm, bytes = length buf, sha256 = sha256Hex P buf\<rparr>)
                namedFiles,
      signing = None\<rparr>"
  by (auto simp: buildManifest_def Let_def)

text \<open>
  Claim C6. The manifest names the hash algorithm \<open>SHA-256\<close> and lists one entry
  per key of the named-blob map, in the map's iteration order; the entry at each
  position holds the key, the number of bytes of the blob and the hexadecimal
  text of the digest of exactly these bytes, so hashing the bytes again gives the
  recorded digest.
\<close>

theorem manifest_file_entries:
  "hash_algo (buildManifest P cfg namedFiles rm) = ''SHA-256''
   \<and> length (files (buildManifest P cfg namedFiles rm)) = length namedFiles
   \<and> map name (files (buildManifest P cfg namedFiles rm)) = map fst namedFiles
   \<and> (\<forall>i < length namedFiles.
         name (files (buildManifest P cfg namedFiles rm) ! i) = fst (namedFiles ! i)
       \<and> bytes (files (buildManifest P cfg namedFiles rm) ! i) = length (snd (namedFiles ! i))
       \<and> sha256 (files (buildManifest P cfg namedFiles rm) ! i)
           = hex (sha256_digest P (snd (namedFiles ! i))))"
proof -
  let ?fs = "files (buildManifest P cfg namedFiles rm)"
  have len: "length ?fs = length namedFiles"
    by (simp add: buildManifest_files)
  have names: "map name ?fs = map fst namedFiles"
    by (simp add: buildManifest_files case_prod_beta comp_def)
  have each: "name (?fs ! i) = fst (namedFiles ! i)
            \<and> bytes (?fs ! i) = length (snd (namedFiles ! i))
            \<and> sha256 (?fs ! i) = hex (sha256_digest P (snd (namedFiles ! i)))"
    if "i < length namedFiles" for i
    using that by (simp add: buildManifest_files case_prod_beta sha256Hex_def)
  from len names each buildManifest_hash_algo [of P cfg namedFiles rm]
  show ?thesis by blast
qed

theorem manifest_file_entries_witness:
  "files (buildManifest example_platform \<lparr>SIGN_PRIVATE_KEY = '''', SIGN_PUBLIC_KEY = ''''\<rparr>
            [(''clients.csv'', ''ab''), (''report.html'', ''xyz'')] example_meta)
     = [\<lparr>name = ''clients.csv'', bytes = 2, sha256 = ''6261''\<rparr>,
        \<lparr>name = ''report.html'', bytes = 3, sha256 = ''7a7978''\<rparr>]
   \<and> hash_algo (buildManifest example_platform \<lparr>SIGN_PRIVATE_KEY = '''', SIGN_PUBLIC_KEY = ''''\<rparr>
            [(''clients.csv'', ''ab''), (''report.html'', ''xyz'')] example_meta) = ''SHA-256''
   \<and> sha256 (files (buildManifest example_platform
            \<lparr>SIGN_PRIVATE_KEY = '''', SIGN_PUBLIC_KEY = ''''\<rparr>
            [(''clients.csv'', ''ab''), (''report.html'', ''xyz'')] example_meta) ! 1)
     = hex (sha256_digest example_platform ''xyz'')"
  using manifest_file_entries [of example_platform
          "\<lparr>SIGN_PRIVATE_KEY = '''', SIGN_PUBLIC_KEY = ''''\<rparr>"
          "[(''clients.csv'', ''ab''), (''report.html'', ''xyz'')]" example_meta]
  by (simp add: buildManifest_unsigned sha256Hex_def hex_def hex_digit_def example_platform_def)

lemma buildManifest_sign_failed:
  "sign_detached P
     (json_stringify P
        (map (\<lambda>(nm, buf). \<lparr>name = nm, bytes = length buf, sha256 = sha256Hex P buf\<rparr>) namedFiles)
        (now_iso P) (ruleset_id rm))
     (base64_decode P (SIGN_PRIVATE_KEY cfg)) = Inl err \<Longrightarrow>
   buildManifest P cfg namedFiles rm =
     \<lparr>created_utc = now_iso P, hash_algo = ''SHA-256'', m_ruleset_id = ruleset_id rm,
      files = map (\<lambda>(nm, buf). \<lparr>name = nm, bytes = length buf, sha256 = sha256Hex P buf\<rparr>)
                namedFiles,
      signing = None\<rparr>"
  by (simp add: buildManifest_def Let_def)

lemma buildManifest_signed:
  "SIGN_PRIVATE_KEY cfg \<noteq> [] \<Longrightarrow> SIGN_PUBLIC_KEY cfg \<noteq> [] \<Longrightarrow>
   sign_detached P
     (json_stringify P
        (map (\<lambda>(nm, buf). \<lparr>name = nm, bytes = length buf, sha256 = sha256Hex P buf\<rparr>) namedFiles)
        (now_iso P) (ruleset_id rm))
     (base64_decode P (SIGN_PRIVATE_KEY cfg)) = Inr sg \<Longrightarrow>
   buildManifest P cfg namedFiles rm =
     \<lparr>created_utc = now_iso P, hash_algo = ''SHA-256'', m_ruleset_id = ruleset_id rm,
      files = map (\<lambda>(nm, buf). \<lparr>name = nm, bytes = length buf, sha256 = sha256Hex P buf\<rparr>)
                namedFiles,
      signing = Some \<lparr>key_id = ''ed25519:app'', signature = base64_encode P sg\<rparr>\<rparr>"
  by (simp add: buildManifest_def Let_def)

text \<open>
  Claim C4. With \<open>unsigned\<close> the manifest that carries no signing field, and
  \<open>outcome\<close> the result of the signing call on the serialised
  \<open>{files, created_utc, ruleset_id}\<close> and the decoded private key: the manifest
  has a signing field exactly when both keys are configured and the signing call
  succeeds; when the call raises, and when a key is missing, \<open>buildManifest\<close>
  still returns, and what it returns is the unsigned manifest.
\<close>

theorem manifest_signing:
  "let fs = map (\<lambda>(nm, buf). \<lparr>name = nm, bytes = length buf, sha256 = sha256Hex P buf\<rparr>)
              namedFiles;
       unsigned = \<lparr>created_utc = now_iso P, hash_algo = ''SHA-256'',
                   m_ruleset_id = ruleset_id rm, files = fs, signing = None\<rparr>;
       outcome = sign_detached P (json_stringify P fs (now_iso P) (ruleset_id rm))
                   (base64_decode P (SIGN_PRIVATE_KEY cfg));
       configured = (SIGN_PRIVATE_KEY cfg \<noteq> [] \<and> SIGN_PUBLIC_KEY cfg \<noteq> [])
   in (signing (buildManifest P cfg namedFiles rm) \<noteq> None
         \<longleftrightarrow> configured \<and> (\<exists>sg. outcome = Inr sg))
    \<and> (\<forall>err. outcome = Inl err \<longrightarrow> buildManifest P cfg namedFiles rm = unsigned)
    \<and> (\<not> configured \<longrightarrow> buildManifest P cfg namedFiles rm = unsigned)
    \<and> (\<forall>sg. configured \<and> outcome = Inr sg \<longrightarrow>
          buildManifest P cfg namedFiles rm
            = unsigned\<lparr>signing := Some \<lparr>key_id = ''ed25519:app'',
                                          signature = base64_encode P sg\<rparr>\<rparr>)"
proof -
  define fs where
    "fs = map (\<lambda>(nm, buf). \<lparr>name = nm, bytes = length buf, sha256 = sha256Hex P buf\<rparr>) namedFiles"
  define unsigned where
    "unsigned = \<lparr>created_utc = now_iso P, hash_algo = ''SHA-256'',
                 m_ruleset_id = ruleset_id rm, files = fs, signing = None\<rparr>"
  define outcome where
    "outcome = sign_detached P (json_stringify P fs (now_iso P) (ruleset_id rm))
                 (base64_decode P (SIGN_PRIVATE_KEY cfg))"
  define configured where
    "configured \<longleftrightarrow> SIGN_PRIVATE_KEY cfg \<noteq> [] \<and> SIGN_PUBLIC_KEY cfg \<noteq> []"
  have failed: "buildManifest P cfg namedFiles rm = unsigned" if "outcome = Inl err" for err
    using that unfolding outcome_def unsigned_def fs_def by (rule buildManifest_sign_failed)
  have missing: "buildManifest P cfg namedFiles rm = unsigned" if "\<not> configured"
    using that unfolding configured_def unsigned_def fs_def
    by (intro buildManifest_unsigned) blast
  have signed: "buildManifest P cfg namedFiles rm
        = unsigned\<lparr>signing := Some \<lparr>key_id = ''ed25519:app'',
                                      signature = base64_encode P sg\<rparr>\<rparr>"
    if "configured" "outcome = Inr sg" for sg
    using that buildManifest_signed [of cfg P namedFiles rm sg]
    unfolding configured_def outcome_def unsigned_def fs_def by simp
  have present: "signing (buildManifest P cfg namedFiles rm) \<noteq> None
         \<longleftrightarrow> configured \<and> (\<exists>sg. outcome = Inr sg)"
  proof (cases configured)
    case False
    with missing show ?thesis by (simp add: unsigned_def)
  next
    case True
    show ?thesis
    proof (cases outcome)
      case (Inl err)
      with failed [of err] True show ?thesis by (simp add: unsigned_def)
    next
      case (Inr sg)
      with signed [of sg] True show ?thesis by simp
    qed
  qed
  from present failed missing signed show ?thesis
    unfolding Let_def fs_def [symmetric] unsigned_def [symmetric] outcome_def [symmetric]
      configured_def [symmetric]
    by blast
qed

theorem manifest_signing_witness:
  "map_option key_id (signing (buildManifest example_platform
       \<lparr>SIGN_PRIVATE_KEY = replicate 64 (CHR ''k''), SIGN_PUBLIC_KEY = ''pub''\<rparr>
       [(''clients.csv'', ''ab'')] example_meta)) = Some ''ed25519:app''
   \<and> buildManifest example_platform
       \<lparr>SIGN_PRIVATE_KEY = ''short'', SIGN_PUBLIC_KEY = ''pub''\<rparr>
       [(''clients.csv'', ''ab'')] example_meta
     = \<lparr>created_utc = ''2025-11-01T00:00:00.000Z'', hash_algo = ''SHA-256'',
        m_ruleset_id = ''dnfbp-2025.11'',
        files = [\<lparr>name = ''clients.csv'', bytes = 2, sha256 = ''6261''\<rparr>], signing = None\<rparr>
   \<and> buildManifest example_platform
       \<lparr>SIGN_PRIVATE_KEY = '''', SIGN_PUBLIC_KEY = ''''\<rparr>
       [(''clients.csv'', ''ab'')] example_meta
     = \<lparr>created_utc = ''2025-11-01T00:00:00.000Z'', hash_algo = ''SHA-256'',
        m_ruleset_id = ''dnfbp-2025.11'',
        files = [\<lparr>name = ''clients.csv'', bytes = 2, sha256 = ''6261''\<rparr>], signing = None\<rparr>"
  using
    manifest_signing [of example_platform "[(''clients.csv'', ''ab'')]" example_meta
      "\<lparr>SIGN_PRIVATE_KEY = replicate 64 (CHR ''k''), SIGN_PUBLIC_KEY = ''pub''\<rparr>"]
    manifest_signing [of example_platform "[(''clients.csv'', ''ab'')]" example_meta
      "\<lparr>SIGN_PRIVATE_KEY = ''short'', SIGN_PUBLIC_KEY = ''pub''\<rparr>"]
    manifest_signing [of example_platform "[(''clients.csv'', ''ab'')]" example_meta
      "\<lparr>SIGN_PRIVATE_KEY = '''', SIGN_PUBLIC_KEY = ''''\<rparr>"]
  by (simp add: Let_def example_platform_def example_meta_def sha256Hex_def hex_def hex_digit_def)

section \<open>Calendar dates: the order of the texts is the order of the days\<close>

lemma digit_val_SomeD:
  "digit_val c = Some v \<Longrightarrow> v < 10 \<and> of_char c = v + (48::nat)"
  by (auto simp: digit_val_def less_eq_char_def split: if_splits)

lemma digit_val_less:
  "digit_val c = Some v \<Longrightarrow> digit_val c' = Some v' \<Longrightarrow> (c < c' \<longleftrightarrow> v < v')"
  by (auto simp: less_char_def dest!: digit_val_SomeD)

lemma digit_val_eq:
  "digit_val c = Some v \<Longrightarrow> digit_val c' = Some v' \<Longrightarrow> (c = c' \<longleftrightarrow> v = v')"
  by (metis digit_val_SomeD of_char_eq_iff option.inject)

lemma parse_ymd_SomeE:
  assumes "parse_ymd s = Some ymd"
  obtains c1 c2 c3 c4 c5 c6 c7 c8 a b c d e f g h where
    "s = [c1, c2, c3, c4, CHR ''-'', c5, c6, CHR ''-'', c7, c8]"
    "digit_val c1 = Some a" "digit_val c2 = Some b" "digit_val c3 = Some c" "digit_val c4 = Some d"
    "digit_val c5 = Some e" "digit_val c6 = Some f" "digit_val c7 = Some g" "digit_val c8 = Some h"
    "ymd = (1000 * a + 100 * b + 10 * c + d, 10 * e + f, 10 * g + h)"
    "valid_ymd ymd"
  using assms
  by (cases s rule: parse_ymd.cases)
     (auto simp: Let_def split: if_splits option.splits list.splits)

lemma lex_step_10:
  fixes e r e' r' :: nat
  shows "r < 10 \<Longrightarrow> r' < 10 \<Longrightarrow> (10 * e + r < 10 * e' + r' \<longleftrightarrow> e < e' \<or> e = e' \<and> r < r')"
  by arith

lemma lex_step_100:
  fixes e r e' r' :: nat
  shows "r < 100 \<Longrightarrow> r' < 100 \<Longrightarrow> (100 * e + r < 100 * e' + r' \<longleftrightarrow> e < e' \<or> e = e' \<and> r < r')"
  by arith

lemma lex_step_1000:
  fixes e r e' r' :: nat
  shows "r < 1000 \<Longrightarrow> r' < 1000 \<Longrightarrow>
    (1000 * e + r < 1000 * e' + r' \<longleftrightarrow> e < e' \<or> e = e' \<and> r < r')"
  by arith

lemma lex2_less:
  fixes e f e' f' :: nat
  assumes "f < 10" "f' < 10"
  shows "(e < e' \<or> e = e' \<and> f < f') \<longleftrightarrow> 10 * e + f < 10 * e' + f'"
  using assms by (simp add: lex_step_10)

lemma lex4_less:
  fixes a b c d a' b' c' d' :: nat
  assumes "b < 10" "c < 10" "d < 10" "b' < 10" "c' < 10" "d' < 10"
  shows "(a < a' \<or> a = a' \<and> (b < b' \<or> b = b' \<and> (c < c' \<or> c = c' \<and> d < d')))
         \<longleftrightarrow> 1000 * a + 100 * b + 10 * c + d < 1000 * a' + 100 * b' + 10 * c' + d'"
proof -
  have low: "10 * c + d < 100" "10 * c' + d' < 100" using assms by arith+
  have mid: "100 * b + (10 * c + d) < 1000" "100 * b' + (10 * c' + d') < 1000"
    using assms by arith+
  have "1000 * a + 100 * b + 10 * c + d < 1000 * a' + 100 * b' + 10 * c' + d'
        \<longleftrightarrow> 1000 * a + (100 * b + (10 * c + d)) < 1000 * a' + (100 * b' + (10 * c' + d'))"
    by (simp only: add.assoc)
  also have "\<dots> \<longleftrightarrow> a < a' \<or> a = a' \<and> 100 * b + (10 * c + d) < 100 * b' + (10 * c' + d')"
    using mid by (rule lex_step_1000)
  also have "100 * b + (10 * c + d) < 100 * b' + (10 * c' + d')
        \<longleftrightarrow> b < b' \<or> b = b' \<and> 10 * c + d < 10 * c' + d'"
    using low by (rule lex_step_100)
  also have "10 * c + d < 10 * c' + d' \<longleftrightarrow> c < c' \<or> c = c' \<and> d < d'"
    using assms(3,6) by (rule lex_step_10)
  finally show ?thesis by simp
qed

lemma parse_ymd_less:
  assumes "parse_ymd s = Some p" "parse_ymd t = Some q" "s < t"
  shows "ymd_less p q"
proof -
  from assms(1) obtain c1 c2 c3 c4 c5 c6 c7 c8 a b c d e f g h where
    s: "s = [c1, c2, c3, c4, CHR ''-'', c5, c6, CHR ''-'', c7, c8]"
    and ds: "digit_val c1 = Some a" "digit_val c2 = Some b" "digit_val c3 = Some c"
      "digit_val c4 = Some d" "digit_val c5 = Some e" "digit_val c6 = Some f"
      "digit_val c7 = Some g" "digit_val c8 = Some h"
    and p: "p = (1000 * a + 100 * b + 10 * c + d, 10 * e + f, 10 * g + h)"
    by (rule parse_ymd_SomeE)
  from assms(2) obtain k1 k2 k3 k4 k5 k6 k7 k8 a' b' c' d' e' f' g' h' where
    t: "t = [k1, k2, k3, k4, CHR ''-'', k5, k6, CHR ''-'', k7, k8]"
    and dt: "digit_val k1 = Some a'" "digit_val k2 = Some b'" "digit_val k3 = Some c'"
      "digit_val k4 = Some d'" "digit_val k5 = Some e'" "digit_val k6 = Some f'"
      "digit_val k7 = Some g'" "digit_val k8 = Some h'"
    and q: "q = (1000 * a' + 100 * b' + 10 * c' + d', 10 * e' + f', 10 * g' + h')"
    by (rule parse_ymd_SomeE)
  note lt = digit_val_less [OF ds(1) dt(1)] digit_val_less [OF ds(2) dt(2)]
    digit_val_less [OF ds(3) dt(3)] digit_val_less [OF ds(4) dt(4)]
    digit_val_less [OF ds(5) dt(5)] digit_val_less [OF ds(6) dt(6)]
    digit_val_less [OF ds(7) dt(7)] digit_val_less [OF ds(8) dt(8)]
  note eq = digit_val_eq [OF ds(1) dt(1)] digit_val_eq [OF ds(2) dt(2)]
    digit_val_eq [OF ds(3) dt(3)] digit_val_eq [OF ds(4) dt(4)]
    digit_val_eq [OF ds(5) dt(5)] digit_val_eq [OF ds(6) dt(6)]
    digit_val_eq [OF ds(7) dt(7)] digit_val_eq [OF ds(8) dt(8)]
  note bounds = ds [THEN digit_val_SomeD, THEN conjunct1] dt [THEN digit_val_SomeD, THEN conjunct1]
  from assms(3) have chain:
    "a < a' \<or> a = a' \<and> (b < b' \<or> b = b' \<and> (c < c' \<or> c = c' \<and> (d < d' \<or> d = d' \<and>
       (e < e' \<or> e = e' \<and> (f < f' \<or> f = f' \<and> (g < g' \<or> g = g' \<and> h < h'))))))"
    unfolding s t by (simp add: lt eq)
  have year_lt: "(a < a' \<or> a = a' \<and> (b < b' \<or> b = b' \<and> (c < c' \<or> c = c' \<and> d < d')))
         \<longleftrightarrow> 1000 * a + 100 * b + 10 * c + d < 1000 * a' + 100 * b' + 10 * c' + d'"
    by (rule lex4_less) (rule bounds)+
  have month_lt: "(e < e' \<or> e = e' \<and> f < f') \<longleftrightarrow> 10 * e + f < 10 * e' + f'"
    by (rule lex2_less) (rule bounds)+
  have day_lt: "(g < g' \<or> g = g' \<and> h < h') \<longleftrightarrow> 10 * g + h < 10 * g' + h'"
    by (rule lex2_less) (rule bounds)+
  from chain have
    "(a < a' \<or> a = a' \<and> (b < b' \<or> b = b' \<and> (c < c' \<or> c = c' \<and> d < d')))
     \<or> (a = a' \<and> b = b' \<and> c = c' \<and> d = d')
        \<and> ((e < e' \<or> e = e' \<and> f < f')
           \<or> (e = e' \<and> f = f') \<and> (g < g' \<or> g = g' \<and> h < h'))"
    by blast
  then have
    "1000 * a + 100 * b + 10 * c + d < 1000 * a' + 100 * b' + 10 * c' + d'
     \<or> (a = a' \<and> b = b' \<and> c = c' \<and> d = d')
        \<and> (10 * e + f < 10 * e' + f'
           \<or> (e = e' \<and> f = f') \<and> 10 * g + h < 10 * g' + h')"
    unfolding year_lt month_lt day_lt .
  then show ?thesis
    unfolding p q ymd_less_def by auto
qed

lemma div_step:
  fixes n k :: int
  assumes "0 < k"
  shows "(n + k) div k = (n + (k - 1)) div k + (if n mod k = 0 then 1 else 0)"
proof -
  define q r where "q = n div k" and "r = n mod k"
  have n: "n = q * k + r" and r: "0 \<le> r" "r < k"
    using assms by (simp_all add: q_def r_def)
  have left: "(n + k) div k = q + 1"
    using assms by (simp add: q_def)
  show ?thesis
  proof (cases "r = 0")
    case True
    have "(n + (k - 1)) div k = (k - 1 + q * k) div k" using n True by (simp add: ac_simps)
    also have "\<dots> = q + (k - 1) div k" by (rule div_mult_self1) (use assms in simp)
    also have "(k - 1) div k = 0" using assms by (simp add: div_pos_pos_trivial)
    finally show ?thesis using left True by (simp add: r_def)
  next
    case False
    have "(n + (k - 1)) div k = (r - 1 + (q + 1) * k) div k" using n by (simp add: algebra_simps)
    also have "\<dots> = (q + 1) + (r - 1) div k" by (rule div_mult_self1) (use assms in simp)
    also have "(r - 1) div k = 0" using r False by (simp add: div_pos_pos_trivial)
    finally show ?thesis using left False by (simp add: r_def)
  qed
qed

lemma div_step_nat:
  "0 < k \<Longrightarrow> (int y + 1 + (int k - 1)) div int k
     = (int y + (int k - 1)) div int k + (if k dvd y then 1 else 0)"
  using div_step [of "int k" "int y"]
  by (simp add: add.commute add.left_commute dvd_eq_mod_eq_0 of_nat_mod [symmetric]
        del: of_nat_mod)

lemma days_before_year_Suc:
  "days_before_year (Suc y) = days_before_year y + int (year_length y)"
proof -
  have d4: "(int (Suc y) + 3) div 4 = (int y + 3) div 4 + (if 4 dvd y then 1 else 0)"
    using div_step_nat [of 4 y] by simp
  have d100: "(int (Suc y) + 99) div 100 = (int y + 99) div 100 + (if 100 dvd y then 1 else 0)"
    using div_step_nat [of 100 y] by simp
  have d400: "(int (Suc y) + 399) div 400 = (int y + 399) div 400 + (if 400 dvd y then 1 else 0)"
    using div_step_nat [of 400 y] by simp
  have c1: "100 dvd y" if "400 dvd y"
    using that by (rule dvd_trans [rotated]) simp
  have c2: "4 dvd y" if "100 dvd y"
    using that by (rule dvd_trans [rotated]) simp
  have leap: "leap_year y \<longleftrightarrow> 4 dvd y \<and> (\<not> 100 dvd y \<or> 400 dvd y)"
    by (simp add: leap_year_def dvd_eq_mod_eq_0)
  have step: "days_before_year (Suc y) = days_before_year y + 365
        + (if 4 dvd y then 1 else 0) - (if 100 dvd y then 1 else 0) + (if 400 dvd y then 1 else 0)"
    unfolding days_before_year_def d4 d100 d400 by simp
  show ?thesis
  proof (cases "4 dvd y")
    case False
    with c1 c2 have "\<not> 100 dvd y" "\<not> 400 dvd y" by blast+
    with False show ?thesis unfolding step year_length_def leap by simp
  next
    case four: True
    show ?thesis
    proof (cases "100 dvd y")
      case False
      with c1 have "\<not> 400 dvd y" by blast
      with four False show ?thesis unfolding step year_length_def leap by simp
    next
      case True
      with four show ?thesis unfolding step year_length_def leap by simp
    qed
  qed
qed

lemma days_before_year_mono: "y \<le> y' \<Longrightarrow> days_before_year y \<le> days_before_year y'"
proof (induction y' rule: dec_induct)
  case base
  show ?case by simp
next
  case (step n)
  then show ?case by (simp add: days_before_year_Suc)
qed

lemma days_before_next_year:
  "y < y' \<Longrightarrow> days_before_year y + int (year_length y) \<le> days_before_year y'"
  using days_before_year_mono [of "Suc y" y'] by (simp add: days_before_year_Suc)

lemma month_cases:
  "1 \<le> m \<Longrightarrow> m \<le> 12 \<Longrightarrow>
   m = 1 \<or> m = 2 \<or> m = 3 \<or> m = 4 \<or> m = 5 \<or> m = 6 \<or> m = 7 \<or> m = 8 \<or> m = 9 \<or> m = 10
   \<or> m = 11 \<or> m = (12::nat)"
  by presburger

lemma days_before_month_Suc:
  assumes "1 \<le> m" "m \<le> 11"
  shows "days_before_month y (Suc m) = days_before_month y m + days_in_month y m"
proof -
  from assms have "1 \<le> m" "m \<le> 12" by simp_all
  then have "m = 1 \<or> m = 2 \<or> m = 3 \<or> m = 4 \<or> m = 5 \<or> m = 6 \<or> m = 7 \<or> m = 8 \<or> m = 9
      \<or> m = 10 \<or> m = 11 \<or> m = 12"
    by (rule month_cases)
  with assms(2) show ?thesis
    by (elim disjE) (simp_all add: days_before_month_def days_in_month_def)
qed

lemma days_before_month_end:
  "days_before_month y 12 + days_in_month y 12 = year_length y"
  by (simp add: days_before_month_def days_in_month_def year_length_def)

lemma days_before_month_mono:
  assumes "1 \<le> m" "m \<le> m'" "m' \<le> 12"
  shows "days_before_month y m \<le> days_before_month y m'"
  using assms(2,3)
proof (induction m' rule: dec_induct)
  case base
  show ?case by simp
next
  case (step n)
  with assms(1) show ?case by (simp add: days_before_month_Suc)
qed

lemma month_within_year:
  assumes "valid_ymd (y, m, d)"
  shows "days_before_month y m + d \<le> year_length y"
proof -
  from assms have m: "1 \<le> m" "m \<le> 12" and d: "d \<le> days_in_month y m"
    by (simp_all add: valid_ymd_def)
  show ?thesis
  proof (cases "m = 12")
    case True
    with d days_before_month_end [of y] show ?thesis by simp
  next
    case False
    with m have "m \<le> 11" by simp
    with m d have "days_before_month y m + d \<le> days_before_month y (Suc m)"
      by (simp add: days_before_month_Suc)
    also from m \<open>m \<le> 11\<close> have "\<dots> \<le> days_before_month y 12"
      by (intro days_before_month_mono) simp_all
    also have "\<dots> \<le> year_length y"
      using days_before_month_end [of y] by simp
    finally show ?thesis .
  qed
qed

lemma day_number_less:
  assumes "valid_ymd p" "valid_ymd q" "ymd_less p q"
  shows "day_number p < day_number q"
proof -
  obtain y m d where p: "p = (y, m, d)" by (cases p)
  obtain y' m' d' where q: "q = (y', m', d')" by (cases q)
  from assms(1,2) have v: "1 \<le> m" "m \<le> 12" "1 \<le> d" "d \<le> days_in_month y m"
      "1 \<le> m'" "m' \<le> 12" "1 \<le> d'"
    unfolding p q by (simp_all add: valid_ymd_def)
  from assms(3) consider "y < y'" | "y = y'" "m < m'" | "y = y'" "m = m'" "d < d'"
    unfolding p q ymd_less_def by auto
  then show ?thesis
  proof cases
    case 1
    have "days_before_year y + int (days_before_month y m + d) \<le> days_before_year y + int (year_length y)"
      using month_within_year [of y m d] assms(1) unfolding p by simp
    also have "\<dots> \<le> days_before_year y'"
      using 1 by (rule days_before_next_year)
    finally show ?thesis
      using v unfolding p q day_number_def by simp
  next
    case 2
    then have "m \<le> 11" using v by simp
    with v have "days_before_month y m + d \<le> days_before_month y (Suc m)"
      by (simp add: days_before_month_Suc)
    also have "\<dots> \<le> days_before_month y m'"
      using 2 v by (intro days_before_month_mono) simp_all
    finally show ?thesis
      using v 2 unfolding p q day_number_def by simp
  next
    case 3
    then show ?thesis unfolding p q day_number_def by simp
  qed
qed

lemma parse_ymd_valid: "parse_ymd s = Some p \<Longrightarrow> valid_ymd p"
  by (erule parse_ymd_SomeE) simp

lemma parseISO_less:
  assumes "parseISO s = Some a" "parseISO t = Some b" "s < t"
  shows "a < b"
proof -
  from assms(1) obtain p where p: "parse_ymd s = Some p" "a = day_number p"
    by (auto simp: parseISO_def)
  from assms(2) obtain q where q: "parse_ymd t = Some q" "b = day_number q"
    by (auto simp: parseISO_def)
  from p(1) q(1) assms(3) have "ymd_less p q" by (rule parse_ymd_less)
  with p q show ?thesis
    by (simp add: day_number_less parse_ymd_valid)
qed

lemma parseISO_le:
  assumes "parseISO s = Some a" "parseISO t = Some b" "s \<le> t"
  shows "a \<le> b"
proof (cases "s = t")
  case True
  with assms show ?thesis by simp
next
  case False
  with assms(3) have "s < t" by simp
  with assms(1,2) have "a < b" by (rule parseISO_less)
  then show ?thesis by simp
qed

lemma parseISO_inj:
  assumes "parseISO s = Some a" "parseISO t = Some a"
  shows "s = t"
proof (rule ccontr)
  assume "s \<noteq> t"
  then consider "s < t" | "t < s" by fastforce
  then show False
  proof cases
    case 1
    with assms have "a < a" by (rule parseISO_less)
    then show False by simp
  next
    case 2
    with assms(2,1) have "a < a" by (rule parseISO_less)
    then show False by simp
  qed
qed

section \<open>The scoring engine: what reaches the rules\<close>

lemma lookup_arr_index_tx:
  "lookup_arr (index_tx lb t m) cid =
     lookup_arr m cid @ (if in_lookback lb t \<and> tx_client_id t = cid then [t] else [])"
  by (auto simp: lookup_arr_def index_tx_def Let_def split: option.splits)

lemma lookup_arr_fold:
  "lookup_arr (fold (index_tx lb) txs m) cid =
     lookup_arr m cid @ filter (\<lambda>t. in_lookback lb t \<and> tx_client_id t = cid) txs"
  by (induction txs arbitrary: m) (simp_all add: lookup_arr_index_tx)

lemma lookup_arr_txByClient:
  "lookup_arr (txByClient lb txs) (client_id c) = client_txs lb txs c"
  by (simp add: txByClient_def lookup_arr_fold client_txs_def) (simp add: lookup_arr_def)

lemma sort_key_twice: "sort_key f (sort_key f xs) = sort_key f xs"
  by (simp add: sort_key_id_if_sorted)

lemma lookup_arr_sorted_upd:
  "m k = Some arr \<Longrightarrow>
   sort_key date (lookup_arr (m(k \<mapsto> sort_key date arr)) k') = sort_key date (lookup_arr m k')"
  by (simp add: lookup_arr_def sort_key_twice)

lemma score_loop_map_aux:
  "(\<And>k. sort_key date (lookup_arr m k) = sort_key date (lookup_arr m0 k)) \<Longrightarrow>
   score_loop lb m cs = map (\<lambda>c. score_client lb c (sort_key date (lookup_arr m0 (client_id c)))) cs"
proof (induction cs arbitrary: m)
  case Nil
  show ?case by simp
next
  case (Cons c cs)
  show ?case
  proof (cases "m (client_id c)")
    case None
    then have "lookup_arr m (client_id c) = []" by (simp add: lookup_arr_def)
    with Cons.prems [of "client_id c"] have "sort_key date (lookup_arr m0 (client_id c)) = []"
      by simp
    with None Cons.IH [OF Cons.prems] show ?thesis by simp
  next
    case (Some arr)
    then have arr: "lookup_arr m (client_id c) = arr" by (simp add: lookup_arr_def)
    have "sort_key date (lookup_arr (m(client_id c \<mapsto> sort_key date arr)) k)
          = sort_key date (lookup_arr m0 k)" for k
      using lookup_arr_sorted_upd [of m "client_id c" arr k] Some Cons.prems [of k] by simp
    then have tail: "score_loop lb (m(client_id c \<mapsto> sort_key date arr)) cs
          = map (\<lambda>c. score_client lb c (sort_key date (lookup_arr m0 (client_id c)))) cs"
      by (rule Cons.IH)
    have head: "sort_key date (lookup_arr m0 (client_id c)) = sort_key date arr"
      using arr Cons.prems [of "client_id c"] by simp
    have step: "score_loop lb m (c # cs)
          = score_client lb c (sort_key date arr)
            # score_loop lb (m(client_id c \<mapsto> sort_key date arr)) cs"
      using Some by (simp add: Let_def)
    show ?thesis
      by (simp only: step tail list.map head)
  qed
qed

lemma score_loop_map:
  "score_loop lb m cs = map (\<lambda>c. score_client lb c (sort_key date (lookup_arr m (client_id c)))) cs"
  by (rule score_loop_map_aux) simp

lemma scoreAll_scores:
  "scores (scoreAll clients txs lb) =
     map (\<lambda>c. score_client lb c (sort_key date (client_txs lb txs c))) clients"
  by (simp add: scoreAll_def Let_def score_loop_map lookup_arr_txByClient)

section \<open>The scoring engine: score, reasons and band\<close>

lemma tally_ok_when_hit: "tally_ok a \<Longrightarrow> points r = k \<Longrightarrow> tally_ok (when_hit b k r a)"
  by (simp add: tally_ok_def when_hit_def hit_def)

lemma points_reason: "points (reason fam txt pts) = pts"
  by (simp add: reason_def)

lemma tally_ok_profile: "tally_ok a \<Longrightarrow> tally_ok (profile_signals lb c a)"
  unfolding profile_signals_def Let_def
  by (intro tally_ok_when_hit points_reason)

lemma tally_ok_behaviour: "tally_ok a \<Longrightarrow> tally_ok (behaviour_signals txlist a)"
  unfolding behaviour_signals_def Let_def
  by (intro tally_ok_when_hit points_reason)

lemma points_tag_reason: "points (tag_reason r) = points r"
  by (simp add: tag_reason_def)

lemma score_client_sum:
  "score (score_client lb c txlist) = sum_list (map points (reasons (score_client lb c txlist)))"
proof -
  have "tally_ok (behaviour_signals txlist (profile_signals lb c (0, [])))"
    by (intro tally_ok_behaviour tally_ok_profile) (simp add: tally_ok_def)
  then show ?thesis
    by (simp add: score_client_def Let_def tally_ok_def comp_def points_tag_reason)
qed

lemma score_client_band: "band (score_client lb c txlist) = toBand (score (score_client lb c txlist))"
  by (simp add: score_client_def Let_def)

lemma score_loop_each:
  "r \<in> set (score_loop lb m cs) \<Longrightarrow> \<exists>c txlist. r = score_client lb c txlist"
  by (induction cs arbitrary: m) (auto simp: Let_def split: option.splits)

lemma toBand_cases:
  "(toBand sc = ''High'' \<longleftrightarrow> sc \<ge> 30) \<and> (toBand sc = ''Medium'' \<longleftrightarrow> 15 \<le> sc \<and> sc < 30)
   \<and> (toBand sc = ''Low'' \<longleftrightarrow> sc < 15)"
  by (simp add: toBand_def)

text \<open>
  Claim C1. Whatever the clients, the transactions and the lookback window, every
  result of \<open>scoreAll\<close> has as its score the sum of the points of its reasons,
  and its band is \<open>High\<close> exactly when the score is at least 30, \<open>Medium\<close>
  exactly when it is at least 15 and below 30, and \<open>Low\<close> exactly when it is
  below 15.
\<close>

theorem score_sum_and_band:
  "\<forall>r \<in> set (scores (scoreAll clients txs lb)).
      score r = sum_list (map points (reasons r))
    \<and> (band r = ''High'' \<longleftrightarrow> score r \<ge> 30)
    \<and> (band r = ''Medium'' \<longleftrightarrow> 15 \<le> score r \<and> score r < 30)
    \<and> (band r = ''Low'' \<longleftrightarrow> score r < 15)"
proof
  fix r
  assume "r \<in> set (scores (scoreAll clients txs lb))"
  then have "r \<in> set (score_loop lb (txByClient lb txs) clients)"
    by (simp add: scoreAll_def Let_def)
  then obtain c txlist where r: "r = score_client lb c txlist"
    using score_loop_each by blast
  show "score r = sum_list (map points (reasons r))
    \<and> (band r = ''High'' \<longleftrightarrow> score r \<ge> 30)
    \<and> (band r = ''Medium'' \<longleftrightarrow> 15 \<le> score r \<and> score r < 30)
    \<and> (band r = ''Low'' \<longleftrightarrow> score r < 15)"
    unfolding r score_client_band
    using score_client_sum [of lb c txlist] toBand_cases [of "score (score_client lb c txlist)"]
    by blast
qed


text \<open>Unfolding sets for running the model on concrete input.\<close>

lemmas js_eval = js_or_def toLowerCase_def toUpperCase_def lower_char_def upper_char_def

lemmas date_eval = parseISO_def digit_val_def valid_ymd_def day_number_def days_before_year_def
  days_before_month_def days_in_month_def leap_year_def

lemmas num_eval = isAfter_def differenceInCalendarDays_def daysBetween_def num_le_def num_gt_def

lemmas rule_eval = pep_def sanc_def kyc_stale_def chan_def svc_def rc_def HR_COUNTRIES_def
  hr_has_def cashIn_def intlHR_def largeAU_def

lemmas tally_eval = when_hit_def hit_def reason_def tag_reason_def profile_signals_def
  behaviour_signals_def score_client_def toBand_def

lemmas loop_eval = scoreAll_def txByClient_def index_tx_def in_lookback_def

theorem score_sum_and_band_witness:
  "scores (scoreAll [(plain_client ''c1'')\<lparr>pep_flag := JStr ''TRUE'',
                                              sanctions_flag := JBool True\<rparr>] []
             example_lookback)
     = [\<lparr>rs_client_id = ''c1'', score = 45, band = ''High'',
         reasons = [\<lparr>family = ''profile'', reason_text = ''PEP flag'', points = 20,
                      rtype = ''reason''\<rparr>,
                    \<lparr>family = ''profile'', reason_text = ''Sanctions flag'', points = 25,
                      rtype = ''reason''\<rparr>]\<rparr>]
   \<and> sum_list (map points (reasons (hd (scores
         (scoreAll [(plain_client ''c1'')\<lparr>pep_flag := JStr ''TRUE'',
                                              sanctions_flag := JBool True\<rparr>] []
            example_lookback))))) = 45"
  using score_sum_and_band [of "[(plain_client ''c1'')\<lparr>pep_flag := JStr ''TRUE'',
                                              sanctions_flag := JBool True\<rparr>]" "[]"
          example_lookback]
  by (simp add: plain_client_def example_lookback_def js_eval date_eval num_eval rule_eval
        tally_eval loop_eval Let_def)

section \<open>The scoring engine: profile flags\<close>

declare digits.simps [simp del]

lemma digits_0: "digits 0 = ''0''"
  by (simp add: digits.simps)

lemma falsy_not_true: "\<not> truthy v \<Longrightarrow> toLowerCase (js_String v) \<noteq> ''true''"
  by (cases v) (auto simp: js_eval digits_0)

lemma flag_set_iff:
  "toLowerCase (js_String (js_or v (JStr ''''))) = ''true'' \<longleftrightarrow> toLowerCase (js_String v) = ''true''"
proof (cases "truthy v")
  case True
  then show ?thesis by (simp add: js_or_def)
next
  case False
  then show ?thesis using falsy_not_true [of v] by (simp add: js_or_def toLowerCase_def)
qed

lemma snd_when_hit: "snd (when_hit b k r a) = snd a @ (if b then [r] else [])"
  by (simp add: when_hit_def hit_def)

lemma fst_when_hit: "fst (when_hit b k r a) = fst a + (if b then k else 0)"
  by (simp add: when_hit_def hit_def)

lemma snd_profile_signals: "snd (profile_signals lb c a) = snd a @ profile_reasons lb c"
  unfolding profile_signals_def Let_def profile_reasons_def
  by (simp only: snd_when_hit append_assoc)

lemma snd_behaviour_signals: "snd (behaviour_signals txlist a) = snd a @ behaviour_reasons txlist"
  unfolding behaviour_signals_def Let_def behaviour_reasons_def
  by (simp only: snd_when_hit append_assoc)

lemma reasons_score_client:
  "reasons (score_client lb c txlist) = map tag_reason (profile_reasons lb c @ behaviour_reasons txlist)"
  by (simp add: score_client_def Let_def snd_behaviour_signals snd_profile_signals)

lemma inj_tag_reason: "inj tag_reason"
  by (rule injI) (simp add: tag_reason_def reason_obj.equality)

lemma tagged_mem: "tag_reason r \<in> set (map tag_reason rs) \<longleftrightarrow> r \<in> set rs"
  using inj_tag_reason by (auto simp: inj_def)

lemma pep_reason_iff:
  "reason ''profile'' ''PEP flag'' 20 \<in> set (profile_reasons lb c @ behaviour_reasons txlist) \<longleftrightarrow> pep c"
  by (simp add: profile_reasons_def behaviour_reasons_def reason_def)

lemma sanc_reason_iff:
  "reason ''profile'' ''Sanctions flag'' 25 \<in> set (profile_reasons lb c @ behaviour_reasons txlist) \<longleftrightarrow> sanc c"
  by (simp add: profile_reasons_def behaviour_reasons_def reason_def)

text \<open>
  Claim C10. For the client at any position of the input, the result carries the
  PEP reason exactly when the value of \<open>pep_flag\<close>, converted to a string and
  put in lower case, is the text \<open>true\<close>, and the sanctions reason exactly when
  the same holds of \<open>sanctions_flag\<close>. The default \<open>|| ''\<close> of the source
  changes nothing: no falsy value converts to \<open>true\<close>.
\<close>

theorem flag_reasons:
  assumes "i < length clients"
  shows "(tag_reason (reason ''profile'' ''PEP flag'' 20)
            \<in> set (reasons (scores (scoreAll clients txs lb) ! i))
          \<longleftrightarrow> toLowerCase (js_String (pep_flag (clients ! i))) = ''true'')
       \<and> (tag_reason (reason ''profile'' ''Sanctions flag'' 25)
            \<in> set (reasons (scores (scoreAll clients txs lb) ! i))
          \<longleftrightarrow> toLowerCase (js_String (sanctions_flag (clients ! i))) = ''true'')"
proof -
  have "reasons (scores (scoreAll clients txs lb) ! i)
        = map tag_reason (profile_reasons lb (clients ! i)
            @ behaviour_reasons (sort_key date (client_txs lb txs (clients ! i))))"
    using assms by (simp add: scoreAll_scores reasons_score_client)
  then show ?thesis
    by (simp only: tagged_mem pep_reason_iff sanc_reason_iff pep_def sanc_def flag_set_iff)
qed


theorem flag_reasons_witness:
  "map (\<lambda>r. map reason_text (reasons r))
     (scores (scoreAll
        [(plain_client ''a'')\<lparr>pep_flag := JBool True\<rparr>,
         (plain_client ''b'')\<lparr>pep_flag := JStr ''TRUE''\<rparr>,
         (plain_client ''c'')\<lparr>pep_flag := JStr ''yes''\<rparr>,
         (plain_client ''d'')\<lparr>pep_flag := JStr ''1''\<rparr>,
         (plain_client ''e'')\<lparr>pep_flag := JStr ''TRUE ''\<rparr>,
         (plain_client ''f'')\<lparr>pep_flag := JStr ''''\<rparr>,
         plain_client ''g'',
         (plain_client ''h'')\<lparr>pep_flag := JNum 1, sanctions_flag := JStr ''True''\<rparr>]
        [] example_lookback))
   = [[''PEP flag''], [''PEP flag''], [], [], [], [], [], [''Sanctions flag'']]
   \<and> toLowerCase (js_String (pep_flag ((plain_client ''b'')\<lparr>pep_flag := JStr ''TRUE''\<rparr>)))
       = ''true''"
  using flag_reasons [of 1
        "[(plain_client ''a'')\<lparr>pep_flag := JBool True\<rparr>,
         (plain_client ''b'')\<lparr>pep_flag := JStr ''TRUE''\<rparr>,
         (plain_client ''c'')\<lparr>pep_flag := JStr ''yes''\<rparr>,
         (plain_client ''d'')\<lparr>pep_flag := JStr ''1''\<rparr>,
         (plain_client ''e'')\<lparr>pep_flag := JStr ''TRUE ''\<rparr>,
         (plain_client ''f'')\<lparr>pep_flag := JStr ''''\<rparr>,
         plain_client ''g'',
         (plain_client ''h'')\<lparr>pep_flag := JNum 1, sanctions_flag := JStr ''True''\<rparr>]"
        "[]" example_lookback]
  by (simp add: plain_client_def example_lookback_def js_eval date_eval num_eval rule_eval
        tally_eval loop_eval Let_def digits.simps)

section \<open>The scoring engine: empty input and clients without signals\<close>

lemma parseISO_empty: "parseISO [] = None"
  by (simp add: parseISO_def)

lemma kyc_stale_iff: "kyc_stale lb c \<longleftrightarrow> kyc_over_a_year lb c"
  by (auto simp: kyc_stale_def kyc_over_a_year_def parseISO_empty differenceInCalendarDays_def
        num_gt_def Let_def split: option.splits)

lemma or_empty_text: "js_String (js_or v (JStr '''')) = field_text v"
  by (simp add: js_or_def field_text_def)

lemma flags_iff: "pep c = flag_is_true (pep_flag c)" "sanc c = flag_is_true (sanctions_flag c)"
  by (simp_all only: pep_def sanc_def flag_is_true_def flag_set_iff)

lemma texts_iff:
  "chan c = toLowerCase (field_text (delivery_channel c))"
  "svc c = toLowerCase (field_text (services c))"
  "rc c = toUpperCase (field_text (residency_country c))"
  by (simp_all only: chan_def svc_def rc_def or_empty_text)

lemma fst_profile_signals:
  "no_profile_signal lb c \<Longrightarrow> profile_signals lb c a = a"
  by (simp add: no_profile_signal_def profile_signals_def when_hit_def flags_iff texts_iff
        kyc_stale_iff)

lemma behaviour_signals_Nil: "behaviour_signals [] a = a"
  by (simp add: behaviour_signals_def when_hit_def cashIn_def intlHR_def largeAU_def)

lemma score_client_no_signal:
  "no_profile_signal lb c \<Longrightarrow>
   score_client lb c [] = \<lparr>rs_client_id = client_id c, score = 0, band = ''Low'', reasons = []\<rparr>"
  by (simp add: score_client_def fst_profile_signals behaviour_signals_Nil toBand_def)

lemma falsy_fields_no_signal:
  assumes "\<not> truthy (pep_flag c)" "\<not> truthy (sanctions_flag c)"
    "kyc_last_reviewed_at c = None \<or> kyc_last_reviewed_at c = Some []"
    "\<not> truthy (delivery_channel c)" "\<not> truthy (services c)" "\<not> truthy (residency_country c)"
  shows "no_profile_signal lb c"
  using assms falsy_not_true [of "pep_flag c"] falsy_not_true [of "sanctions_flag c"]
  by (auto simp: no_profile_signal_def flag_is_true_def kyc_over_a_year_def parseISO_empty
        field_text_def toLowerCase_def toUpperCase_def HR_COUNTRIES_def)

lemma falsy_fields_typed:
  assumes "kyc_last_reviewed_at c = None \<or> kyc_last_reviewed_at c = Some []"
    "\<not> truthy (delivery_channel c)" "\<not> truthy (services c)" "\<not> truthy (residency_country c)"
  shows "typed_profile lb c"
  using assms by (auto simp: typed_profile_def field_text_def ascii_text_def)

lemma in_lookback_iff:
  assumes "parseISO (start lb) \<noteq> None"
  shows "in_lookback lb t \<longleftrightarrow> on_or_after (date t) (start lb)"
proof -
  from assms obtain b where b: "parseISO (start lb) = Some b" by auto
  show ?thesis
  proof (cases "parseISO (date t)")
    case None
    with b have "date t \<noteq> start lb" by auto
    with None b show ?thesis
      by (simp add: in_lookback_def on_or_after_def isAfter_def)
  next
    case (Some a)
    have "date t = start lb \<longleftrightarrow> a = b"
      using Some b parseISO_inj [of "date t" a "start lb"] by auto
    with Some b show ?thesis
      by (auto simp: in_lookback_def on_or_after_def isAfter_def)
  qed
qed

lemma calendar_date_parseISO: "calendar_date s \<longleftrightarrow> parseISO s \<noteq> None"
  by (simp add: calendar_date_def parseISO_def)

lemma client_txs_window: "dated lb txs \<Longrightarrow> client_txs lb txs c = window_txs lb txs c"
  by (simp add: client_txs_def window_txs_def dated_def calendar_date_parseISO in_lookback_iff)

text \<open>
  Claim C8. On the typed input of the model no call of \<open>scoreAll\<close> can raise:
  \<open>parseISO\<close> is given strings only, \<open>String\<close>, \<open>toString\<close> and the case mappings
  are applied to values that have them, and the rest is arithmetic, comparison,
  and array and map access; so \<open>scoreAll\<close> returns for every input. On an empty
  client list it returns no scores, whatever the transactions; on an empty
  transaction list it returns one result per client, each the result of the loop
  body on the profile and an empty transaction array; on any input the results
  carry the ids of the clients, in the order of the clients. For dated input, a
  client with a typed profile that has no transaction inside the lookback window
  and no profile signal gets score 0, band \<open>Low\<close> and no reason at all; a client
  whose optional profile fields are all absent or empty has a typed profile
  without profile signals.
\<close>

theorem score_without_input:
  "scores (scoreAll [] txs lb) = []
   \<and> scores (scoreAll clients [] lb) = map (\<lambda>c. score_client lb c []) clients
   \<and> length (scores (scoreAll clients txs lb)) = length clients
   \<and> map rs_client_id (scores (scoreAll clients txs lb)) = map client_id clients
   \<and> (\<forall>i < length clients.
         dated lb txs \<and> typed_profile lb (clients ! i)
         \<and> window_txs lb txs (clients ! i) = [] \<and> no_profile_signal lb (clients ! i) \<longrightarrow>
         scores (scoreAll clients txs lb) ! i
           = \<lparr>rs_client_id = client_id (clients ! i), score = 0, band = ''Low'', reasons = []\<rparr>)
   \<and> (\<forall>c. \<not> truthy (pep_flag c) \<and> \<not> truthy (sanctions_flag c)
           \<and> (kyc_last_reviewed_at c = None \<or> kyc_last_reviewed_at c = Some [])
           \<and> \<not> truthy (delivery_channel c)
           \<and> \<not> truthy (services c) \<and> \<not> truthy (residency_country c)
          \<longrightarrow> typed_profile lb c \<and> no_profile_signal lb c)"
proof -
  have no_clients: "scores (scoreAll [] txs lb) = []"
    by (simp add: scoreAll_scores)
  have no_txs: "scores (scoreAll clients [] lb) = map (\<lambda>c. score_client lb c []) clients"
    by (simp add: scoreAll_scores client_txs_def)
  have len: "length (scores (scoreAll clients txs lb)) = length clients"
    by (simp add: scoreAll_scores)
  have ids: "map rs_client_id (scores (scoreAll clients txs lb)) = map client_id clients"
    by (simp add: scoreAll_scores score_client_def Let_def comp_def)
  have quiet: "scores (scoreAll clients txs lb) ! i
           = \<lparr>rs_client_id = client_id (clients ! i), score = 0, band = ''Low'', reasons = []\<rparr>"
    if "i < length clients" "dated lb txs" "window_txs lb txs (clients ! i) = []"
      "no_profile_signal lb (clients ! i)" for i
    using that by (simp add: scoreAll_scores client_txs_window score_client_no_signal)
  from no_clients no_txs len ids quiet falsy_fields_no_signal [of _ lb]
    falsy_fields_typed [of _ lb]
  show ?thesis
    by blast
qed

lemma example_fields:
  "client_id (plain_client cid) = cid"
  "tx_client_id (cash_deposit cid d) = cid" "date (cash_deposit cid d) = d"
  "tx_client_id (wire_out cid d amt cc) = cid" "date (wire_out cid d amt cc) = d"
  by (simp_all add: plain_client_def cash_deposit_def wire_out_def)

lemma parseISO_examples:
  "parseISO ''2023-12-31'' = Some 739250"
  "parseISO ''2024-01-01'' = Some 739251"
  "parseISO ''2024-03-01'' = Some 739311"
  "parseISO ''2024-03-03'' = Some 739313"
  "parseISO ''2024-03-05'' = Some 739315"
  "parseISO ''2024-03-08'' = Some 739318"
  "parseISO ''2024-03-09'' = Some 739319"
  "parseISO ''2024-05-05'' = Some 739376"
  "parseISO ''2025-01-15'' = Some 739631"
  "parseISO ''2025-06-30'' = Some 739797"
  by (simp_all add: date_eval)

lemma dated_examples:
  "dated example_lookback [cash_deposit ''c1'' ''2023-12-31'', cash_deposit ''c3'' ''2024-05-05'']"
  "dated example_lookback [wire_out ''c1'' ''2024-01-01'' 150000 ''AU'']"
  "dated example_lookback [wire_out ''c1'' ''2023-12-31'' 150000 ''AU'']"
  by (simp_all add: dated_def calendar_date_parseISO example_lookback_def example_fields
        parseISO_examples)

theorem score_without_input_witness:
  "scores (scoreAll
        [(plain_client ''c1'')\<lparr>pep_flag := JStr ''no'', sanctions_flag := JBool False,
            kyc_last_reviewed_at := Some ''2025-01-15'', delivery_channel := JStr ''Branch'',
            services := JStr ''Tax'', residency_country := JStr ''au''\<rparr>,
         plain_client ''c2'']
        [cash_deposit ''c1'' ''2023-12-31'', cash_deposit ''c3'' ''2024-05-05'']
        example_lookback)
     = [\<lparr>rs_client_id = ''c1'', score = 0, band = ''Low'', reasons = []\<rparr>,
        \<lparr>rs_client_id = ''c2'', score = 0, band = ''Low'', reasons = []\<rparr>]
   \<and> dated example_lookback
        [cash_deposit ''c1'' ''2023-12-31'', cash_deposit ''c3'' ''2024-05-05'']
   \<and> typed_profile example_lookback
        ((plain_client ''c1'')\<lparr>pep_flag := JStr ''no'', sanctions_flag := JBool False,
            kyc_last_reviewed_at := Some ''2025-01-15'', delivery_channel := JStr ''Branch'',
            services := JStr ''Tax'', residency_country := JStr ''au''\<rparr>)
   \<and> no_profile_signal example_lookback
        ((plain_client ''c1'')\<lparr>pep_flag := JStr ''no'', sanctions_flag := JBool False,
            kyc_last_reviewed_at := Some ''2025-01-15'', delivery_channel := JStr ''Branch'',
            services := JStr ''Tax'', residency_country := JStr ''au''\<rparr>)
   \<and> window_txs example_lookback
        [cash_deposit ''c1'' ''2023-12-31'', cash_deposit ''c3'' ''2024-05-05'']
        ((plain_client ''c1'')\<lparr>pep_flag := JStr ''no'', sanctions_flag := JBool False,
            kyc_last_reviewed_at := Some ''2025-01-15'', delivery_channel := JStr ''Branch'',
            services := JStr ''Tax'', residency_country := JStr ''au''\<rparr>) = []"
proof -
  define c1 where "c1 = (plain_client ''c1'')\<lparr>pep_flag := JStr ''no'',
      sanctions_flag := JBool False, kyc_last_reviewed_at := Some ''2025-01-15'',
      delivery_channel := JStr ''Branch'', services := JStr ''Tax'',
      residency_country := JStr ''au''\<rparr>"
  define c2 where "c2 = plain_client ''c2''"
  define txs where "txs = [cash_deposit ''c1'' ''2023-12-31'', cash_deposit ''c3'' ''2024-05-05'']"
  have ids: "client_id c1 = ''c1''" "client_id c2 = ''c2''"
    by (simp_all add: c1_def c2_def plain_client_def)
  have dated: "dated example_lookback txs"
    unfolding txs_def by (rule dated_examples)
  have typed1: "typed_profile example_lookback c1"
    by (simp add: typed_profile_def c1_def plain_client_def example_lookback_def field_text_def
          ascii_text_def calendar_date_parseISO parseISO_examples)
  have typed2: "typed_profile example_lookback c2"
    by (simp add: falsy_fields_typed c2_def plain_client_def)
  have quiet1: "no_profile_signal example_lookback c1"
    by (simp add: no_profile_signal_def flag_is_true_def kyc_over_a_year_def c1_def
          plain_client_def example_lookback_def field_text_def parseISO_examples js_eval
          HR_COUNTRIES_def)
  have quiet2: "no_profile_signal example_lookback c2"
    by (simp add: falsy_fields_no_signal c2_def plain_client_def)
  have none1: "window_txs example_lookback txs c1 = []"
    by (simp add: window_txs_def txs_def ids example_fields on_or_after_def example_lookback_def
          parseISO_examples)
  have none2: "window_txs example_lookback txs c2 = []"
    by (simp add: window_txs_def txs_def ids example_fields on_or_after_def example_lookback_def
          parseISO_examples)
  have len: "length (scores (scoreAll [c1, c2] txs example_lookback)) = 2"
    using score_without_input [of txs example_lookback "[c1, c2]"] by simp
  have "\<forall>i < length [c1, c2].
         dated example_lookback txs \<and> typed_profile example_lookback ([c1, c2] ! i)
         \<and> window_txs example_lookback txs ([c1, c2] ! i) = []
         \<and> no_profile_signal example_lookback ([c1, c2] ! i) \<longrightarrow>
         scores (scoreAll [c1, c2] txs example_lookback) ! i
           = \<lparr>rs_client_id = client_id ([c1, c2] ! i), score = 0, band = ''Low'', reasons = []\<rparr>"
    using score_without_input [of txs example_lookback "[c1, c2]"] by blast
  then have each: "dated example_lookback txs \<and> typed_profile example_lookback ([c1, c2] ! i)
         \<and> window_txs example_lookback txs ([c1, c2] ! i) = []
         \<and> no_profile_signal example_lookback ([c1, c2] ! i) \<longrightarrow>
         scores (scoreAll [c1, c2] txs example_lookback) ! i
           = \<lparr>rs_client_id = client_id ([c1, c2] ! i), score = 0, band = ''Low'', reasons = []\<rparr>"
    if "i < 2" for i
    using that by simp
  from each [of 0] dated typed1 none1 quiet1
  have r0: "scores (scoreAll [c1, c2] txs example_lookback) ! 0
      = \<lparr>rs_client_id = ''c1'', score = 0, band = ''Low'', reasons = []\<rparr>"
    by (simp add: ids)
  from each [of 1] dated typed2 none2 quiet2
  have r1: "scores (scoreAll [c1, c2] txs example_lookback) ! 1
      = \<lparr>rs_client_id = ''c2'', score = 0, band = ''Low'', reasons = []\<rparr>"
    by (simp add: ids)
  have "scores (scoreAll [c1, c2] txs example_lookback)
      = [\<lparr>rs_client_id = ''c1'', score = 0, band = ''Low'', reasons = []\<rparr>,
         \<lparr>rs_client_id = ''c2'', score = 0, band = ''Low'', reasons = []\<rparr>]"
    using len r0 r1 by (simp add: list_eq_iff_nth_eq less_Suc_eq numeral_2_eq_2)
  with dated typed1 quiet1 none1 show ?thesis
    unfolding c1_def c2_def txs_def by blast
qed

section \<open>The scoring engine: the lookback window\<close>

lemma in_lookback_start: "date t = start lb \<Longrightarrow> in_lookback lb t"
  by (simp add: in_lookback_def)

text \<open>
  Claim C7. Let the lookback start and the dates of the transactions be calendar
  dates. Then the window test of the source accepts exactly the transactions
  dated on or after the start, and the result of each client is computed by
  \<open>score_client\<close>, whose behavioural rules read nothing but the list it is given,
  from the transactions that carry the client's id and are dated on or after the
  start (put in date order). The boundary is inclusive: a transaction dated
  exactly \<open>lookback.start\<close> passes the test, and when it carries the client's id
  it is in that list.
\<close>

theorem lookback_window:
  assumes "dated lb txs"
  shows "(\<forall>t :: tx. calendar_date (date t) \<longrightarrow>
            (in_lookback lb t \<longleftrightarrow> on_or_after (date t) (start lb)))
       \<and> scores (scoreAll clients txs lb)
           = map (\<lambda>c. score_client lb c (sort_key date (window_txs lb txs c))) clients
       \<and> (\<forall>c :: client. set (window_txs lb txs c)
             = {t \<in> set txs. tx_client_id t = client_id c \<and> on_or_after (date t) (start lb)})
       \<and> (\<forall>t. \<forall>c :: client.
             t \<in> set txs \<and> date t = start lb \<and> tx_client_id t = client_id c \<longrightarrow>
             in_lookback lb t \<and> on_or_after (date t) (start lb)
           \<and> t \<in> set (sort_key date (window_txs lb txs c)))"
proof -
  from assms have valid: "parseISO (start lb) \<noteq> None"
    by (simp add: dated_def calendar_date_parseISO)
  have window: "in_lookback lb t \<longleftrightarrow> on_or_after (date t) (start lb)" for t :: tx
    using valid by (rule in_lookback_iff)
  have members: "set (window_txs lb txs c)
      = {t \<in> set txs. tx_client_id t = client_id c \<and> on_or_after (date t) (start lb)}"
    for c :: client
    by (auto simp: window_txs_def)
  have boundary: "on_or_after (date t) (start lb)" if "date t = start lb" for t :: tx
    using that window [of t] by (simp add: in_lookback_start)
  have included: "t \<in> set (sort_key date (window_txs lb txs c))"
    if "t \<in> set txs" "date t = start lb" "tx_client_id t = client_id c" for t and c :: client
    using that boundary [of t] by (simp add: window_txs_def)
  have results: "scores (scoreAll clients txs lb)
      = map (\<lambda>c. score_client lb c (sort_key date (window_txs lb txs c))) clients"
    using assms by (simp add: scoreAll_scores client_txs_window)
  from window have first: "\<forall>t :: tx. calendar_date (date t) \<longrightarrow>
      (in_lookback lb t \<longleftrightarrow> on_or_after (date t) (start lb))"
    by (intro allI impI)
  from members have second: "\<forall>c :: client. set (window_txs lb txs c)
      = {t \<in> set txs. tx_client_id t = client_id c \<and> on_or_after (date t) (start lb)}"
    by (intro allI)
  from boundary included in_lookback_start [of _ lb] have third:
    "\<forall>t. \<forall>c :: client.
       t \<in> set txs \<and> date t = start lb \<and> tx_client_id t = client_id c \<longrightarrow>
       in_lookback lb t \<and> on_or_after (date t) (start lb)
     \<and> t \<in> set (sort_key date (window_txs lb txs c))"
    by (intro allI impI conjI; elim conjE)
  from first results second third show ?thesis
    by (intro conjI)
qed

theorem lookback_window_witness:
  "dated example_lookback [wire_out ''c1'' ''2024-01-01'' 150000 ''AU'']
   \<and> dated example_lookback [wire_out ''c1'' ''2023-12-31'' 150000 ''AU'']
   \<and> scores (scoreAll [plain_client ''c1'']
        [wire_out ''c1'' ''2024-01-01'' 150000 ''AU''] example_lookback)
     = [\<lparr>rs_client_id = ''c1'', score = 8, band = ''Low'',
         reasons = [\<lparr>family = ''behaviour'', reason_text = large_text, points = 8,
                      rtype = ''reason''\<rparr>]\<rparr>]
   \<and> scores (scoreAll [plain_client ''c1'']
        [wire_out ''c1'' ''2023-12-31'' 150000 ''AU''] example_lookback)
     = [\<lparr>rs_client_id = ''c1'', score = 0, band = ''Low'', reasons = []\<rparr>]"
proof -
  have quiet: "no_profile_signal example_lookback (plain_client ''c1'')"
    by (simp add: falsy_fields_no_signal plain_client_def)
  have inside: "on_or_after ''2024-01-01'' (start example_lookback)"
    and outside: "\<not> on_or_after ''2023-12-31'' (start example_lookback)"
    by (simp_all add: on_or_after_def example_lookback_def parseISO_examples)
  have "scores (scoreAll [plain_client ''c1'']
        [wire_out ''c1'' ''2024-01-01'' 150000 ''AU''] example_lookback)
      = map (\<lambda>c. score_client example_lookback c
              (sort_key date (window_txs example_lookback
                 [wire_out ''c1'' ''2024-01-01'' 150000 ''AU''] c)))
          [plain_client ''c1'']"
    using lookback_window [OF dated_examples(2), of "[plain_client ''c1'']"] by blast
  with inside have "scores (scoreAll [plain_client ''c1'']
        [wire_out ''c1'' ''2024-01-01'' 150000 ''AU''] example_lookback)
      = [score_client example_lookback (plain_client ''c1'')
           [wire_out ''c1'' ''2024-01-01'' 150000 ''AU'']]"
    by (simp add: window_txs_def example_fields)
  moreover
  have "scores (scoreAll [plain_client ''c1'']
        [wire_out ''c1'' ''2023-12-31'' 150000 ''AU''] example_lookback)
      = map (\<lambda>c. score_client example_lookback c
              (sort_key date (window_txs example_lookback
                 [wire_out ''c1'' ''2023-12-31'' 150000 ''AU''] c)))
          [plain_client ''c1'']"
    using lookback_window [OF dated_examples(3), of "[plain_client ''c1'']"] by blast
  with outside have "scores (scoreAll [plain_client ''c1'']
        [wire_out ''c1'' ''2023-12-31'' 150000 ''AU''] example_lookback)
      = [score_client example_lookback (plain_client ''c1'') []]"
    by (simp add: window_txs_def example_fields)
  moreover
  have "score_client example_lookback (plain_client ''c1'')
           [wire_out ''c1'' ''2024-01-01'' 150000 ''AU'']
      = \<lparr>rs_client_id = ''c1'', score = 8, band = ''Low'',
         reasons = [\<lparr>family = ''behaviour'', reason_text = large_text, points = 8,
                      rtype = ''reason''\<rparr>]\<rparr>"
    using quiet
    by (simp add: score_client_def fst_profile_signals behaviour_signals_def when_hit_def hit_def
          cashIn_def intlHR_def largeAU_def wire_out_def reason_def tag_reason_def toBand_def
          plain_client_def)
  ultimately show ?thesis
    using quiet dated_examples(2,3) by (simp add: score_client_no_signal plain_client_def)
qed

section \<open>The scoring engine: the order of the transactions\<close>

lemma map_insort_key: "map f (insort_key f x xs) = insort (f x) (map f xs)"
  by (induction xs) simp_all

lemma map_sort_key: "map f (sort_key f xs) = sort (map f xs)"
  by (induction xs) (simp_all add: map_insort_key)

lemma mset_sort_key: "mset (sort_key f xs) = mset xs"
  by simp

lemma sort_mset_cong: "mset xs = mset ys \<Longrightarrow> sort xs = sort ys"
proof -
  assume "mset xs = mset ys"
  then have "sorted_list_of_multiset (mset xs) = sorted_list_of_multiset (mset ys)"
    by (rule arg_cong)
  then show ?thesis
    by (simp only: sorted_list_of_multiset_mset)
qed

lemma dates_sort_key_filter:
  assumes "mset xs = mset ys"
  shows "map date (filter Q (sort_key date xs)) = map date (filter Q (sort_key date ys))"
proof -
  from assms have "mset (map date (filter Q xs)) = mset (map date (filter Q ys))"
    by simp
  then have "sort (map date (filter Q xs)) = sort (map date (filter Q ys))"
    by (rule sort_mset_cong)
  then show ?thesis
    by (simp add: filter_sort map_sort_key)
qed

lemma structured_dates:
  "map date xs = map date ys \<Longrightarrow> structured xs = structured ys"
proof (induction xs arbitrary: ys)
  case Nil
  then show ?case by simp
next
  case (Cons x xs)
  then obtain y ys' where ys: "ys = y # ys'" "date x = date y" "map date xs = map date ys'"
    by (cases ys) auto
  have "length (filter (\<lambda>t. num_le (daysBetween (date x) (date t)) 7) xs)
      = length (filter (\<lambda>d. num_le (daysBetween (date x) d) 7) (map date xs))"
    by (simp add: filter_map comp_def)
  also have "\<dots> = length (filter (\<lambda>t. num_le (daysBetween (date y) (date t)) 7) ys')"
    unfolding ys(2,3) by (simp add: filter_map comp_def)
  finally show ?case
    using Cons.IH [OF ys(3)] by (simp add: ys(1) Let_def)
qed

lemma length_filter_mset_cong:
  "mset xs = mset ys \<Longrightarrow> length (filter P (sort_key f xs)) = length (filter P (sort_key f ys))"
proof -
  assume "mset xs = mset ys"
  then have "size (filter_mset P (mset (sort_key f xs))) = size (filter_mset P (mset (sort_key f ys)))"
    by simp
  then show ?thesis
    by (simp only: mset_filter [symmetric] size_mset)
qed

lemma set_filter_mset_cong:
  "mset xs = mset ys \<Longrightarrow> set (filter P (sort_key f xs)) = set (filter P (sort_key f ys))"
proof -
  assume "mset xs = mset ys"
  then have "set xs = set ys" by (rule mset_eq_setD)
  then show ?thesis by simp
qed

lemma behaviour_signals_mset:
  assumes "mset xs = mset ys"
  shows "behaviour_signals (sort_key date xs) a = behaviour_signals (sort_key date ys) a"
proof -
  have s: "structured (cashIn (sort_key date xs)) = structured (cashIn (sort_key date ys))"
    unfolding cashIn_def by (intro structured_dates dates_sort_key_filter assms)
  have n1: "length (intlHR (sort_key date xs)) = length (intlHR (sort_key date ys))"
    unfolding intlHR_def by (intro length_filter_mset_cong assms)
  have e1: "list_ex (\<lambda>t. amount t \<ge> 20000) (intlHR (sort_key date xs))
          = list_ex (\<lambda>t. amount t \<ge> 20000) (intlHR (sort_key date ys))"
    unfolding intlHR_def list_ex_iff by (simp only: set_filter_mset_cong [OF assms])
  have n2: "length (largeAU (sort_key date xs)) = length (largeAU (sort_key date ys))"
    unfolding largeAU_def by (intro length_filter_mset_cong assms)
  show ?thesis
    unfolding behaviour_signals_def by (simp only: s n1 e1 n2)
qed

lemma client_txs_mset:
  "mset txs = mset txs' \<Longrightarrow> mset (client_txs lb txs c) = mset (client_txs lb txs' c)"
  by (simp add: client_txs_def)

text \<open>
  Claim C5. When two transaction lists are permutations of each other (they are
  equal as multisets) and their dates and the lookback start are calendar dates,
  \<open>scoreAll\<close> returns the same output for them, whatever the clients: the same
  results in the same client order, each with the same score, band and reasons
  in the same order, and the same ruleset metadata.
\<close>

theorem scoreAll_permutation:
  assumes "mset txs = mset txs'" and "dated lb txs"
  shows "scoreAll clients txs lb = scoreAll clients txs' lb"
proof -
  have "score_client lb c (sort_key date (client_txs lb txs c))
      = score_client lb c (sort_key date (client_txs lb txs' c))" for c
    unfolding score_client_def
    by (simp only: behaviour_signals_mset [OF client_txs_mset [OF assms(1)]])
  then have "scores (scoreAll clients txs lb) = scores (scoreAll clients txs' lb)"
    by (simp only: scoreAll_scores)
  moreover have "rulesMeta (scoreAll clients txs lb) = rulesMeta (scoreAll clients txs' lb)"
    by (simp add: scoreAll_def Let_def)
  ultimately show ?thesis
    by (rule score_output.equality) simp
qed

theorem scoreAll_permutation_witness:
  "mset [cash_deposit ''c1'' ''2024-03-08'', cash_deposit ''c1'' ''2024-03-01'',
         cash_deposit ''c2'' ''2024-03-03'', cash_deposit ''c1'' ''2024-03-05'',
         cash_deposit ''c1'' ''2024-03-03'']
     = mset [cash_deposit ''c1'' ''2024-03-03'', cash_deposit ''c1'' ''2024-03-05'',
             cash_deposit ''c1'' ''2024-03-01'', cash_deposit ''c2'' ''2024-03-03'',
             cash_deposit ''c1'' ''2024-03-08'']
   \<and> dated example_lookback
        [cash_deposit ''c1'' ''2024-03-08'', cash_deposit ''c1'' ''2024-03-01'',
         cash_deposit ''c2'' ''2024-03-03'', cash_deposit ''c1'' ''2024-03-05'',
         cash_deposit ''c1'' ''2024-03-03'']
   \<and> scoreAll [plain_client ''c1'', plain_client ''c2'']
        [cash_deposit ''c1'' ''2024-03-08'', cash_deposit ''c1'' ''2024-03-01'',
         cash_deposit ''c2'' ''2024-03-03'', cash_deposit ''c1'' ''2024-03-05'',
         cash_deposit ''c1'' ''2024-03-03'']
        example_lookback
     = scoreAll [plain_client ''c1'', plain_client ''c2'']
        [cash_deposit ''c1'' ''2024-03-03'', cash_deposit ''c1'' ''2024-03-05'',
         cash_deposit ''c1'' ''2024-03-01'', cash_deposit ''c2'' ''2024-03-03'',
         cash_deposit ''c1'' ''2024-03-08'']
        example_lookback
   \<and> scores (scoreAll [plain_client ''c1'', plain_client ''c2'']
        [cash_deposit ''c1'' ''2024-03-08'', cash_deposit ''c1'' ''2024-03-01'',
         cash_deposit ''c2'' ''2024-03-03'', cash_deposit ''c1'' ''2024-03-05'',
         cash_deposit ''c1'' ''2024-03-03'']
        example_lookback)
     = [\<lparr>rs_client_id = ''c1'', score = 12, band = ''Low'',
         reasons = [\<lparr>family = ''behaviour'', reason_text = structuring_text, points = 12,
                      rtype = ''reason''\<rparr>]\<rparr>,
        \<lparr>rs_client_id = ''c2'', score = 0, band = ''Low'', reasons = []\<rparr>]
   \<and> scores (scoreAll [plain_client ''c1'', plain_client ''c2'']
        [cash_deposit ''c1'' ''2024-03-03'', cash_deposit ''c1'' ''2024-03-05'',
         cash_deposit ''c1'' ''2024-03-01'', cash_deposit ''c2'' ''2024-03-03'',
         cash_deposit ''c1'' ''2024-03-08'']
        example_lookback)
     = [\<lparr>rs_client_id = ''c1'', score = 12, band = ''Low'',
         reasons = [\<lparr>family = ''behaviour'', reason_text = structuring_text, points = 12,
                      rtype = ''reason''\<rparr>]\<rparr>,
        \<lparr>rs_client_id = ''c2'', score = 0, band = ''Low'', reasons = []\<rparr>]"
proof -
  let ?A = "[cash_deposit ''c1'' ''2024-03-08'', cash_deposit ''c1'' ''2024-03-01'',
         cash_deposit ''c2'' ''2024-03-03'', cash_deposit ''c1'' ''2024-03-05'',
         cash_deposit ''c1'' ''2024-03-03'']"
  let ?B = "[cash_deposit ''c1'' ''2024-03-03'', cash_deposit ''c1'' ''2024-03-05'',
             cash_deposit ''c1'' ''2024-03-01'', cash_deposit ''c2'' ''2024-03-03'',
             cash_deposit ''c1'' ''2024-03-08'']"
  let ?cs = "[plain_client ''c1'', plain_client ''c2'']"
  have perm: "mset ?A = mset ?B"
    by (simp add: add_mset_commute)
  have dated: "dated example_lookback ?A"
    by (simp add: dated_def calendar_date_parseISO example_lookback_def example_fields
          parseISO_examples)
  have same: "scoreAll ?cs ?A example_lookback = scoreAll ?cs ?B example_lookback"
    using scoreAll_permutation [OF perm dated] .
  have first: "scores (scoreAll ?cs ?A example_lookback)
     = [\<lparr>rs_client_id = ''c1'', score = 12, band = ''Low'',
         reasons = [\<lparr>family = ''behaviour'', reason_text = structuring_text, points = 12,
                      rtype = ''reason''\<rparr>]\<rparr>,
        \<lparr>rs_client_id = ''c2'', score = 0, band = ''Low'', reasons = []\<rparr>]"
    by (simp add: plain_client_def cash_deposit_def example_lookback_def js_eval
          parseISO_examples num_eval rule_eval tally_eval loop_eval Let_def)
  have second: "scores (scoreAll ?cs ?B example_lookback)
     = [\<lparr>rs_client_id = ''c1'', score = 12, band = ''Low'',
         reasons = [\<lparr>family = ''behaviour'', reason_text = structuring_text, points = 12,
                      rtype = ''reason''\<rparr>]\<rparr>,
        \<lparr>rs_client_id = ''c2'', score = 0, band = ''Low'', reasons = []\<rparr>]"
    by (simp add: plain_client_def cash_deposit_def example_lookback_def js_eval
          parseISO_examples num_eval rule_eval tally_eval loop_eval Let_def)
  from perm dated same first second show ?thesis
    by (intro conjI)
qed

section \<open>The scoring engine: the structuring rule\<close>

lemma submset_add: "M \<subseteq># N \<Longrightarrow> M \<subseteq># add_mset x N"
  by (simp add: subseteq_mset_def le_SucI)
lemma submset_notin: "x \<notin># M \<Longrightarrow> M \<subseteq># add_mset x N \<Longrightarrow> M \<subseteq># N"
  unfolding subseteq_mset_def
proof (intro allI)
  fix a
  assume nin: "x \<notin># M" and le: "\<forall>a. count M a \<le> count (add_mset x N) a"
  show "count M a \<le> count N a"
  proof (cases "a = x")
    case True
    with nin show ?thesis by (simp add: not_in_iff)
  next
    case False
    with le [rule_format, of a] show ?thesis by simp
  qed
qed
lemma submset_remove: "M \<subseteq># add_mset x N \<Longrightarrow> M - {#x#} \<subseteq># N"
  unfolding subseteq_mset_def
proof (intro allI)
  fix a
  assume le: "\<forall>a. count M a \<le> count (add_mset x N) a"
  from le [rule_format, of a] show "count (M - {#x#}) a \<le> count N a"
    by (cases "a = x") simp_all
qed

lemma within_7_days_iff: "num_le (daysBetween a b) 7 \<longleftrightarrow> within_7_days a b"
  by (simp add: within_7_days_def daysBetween_def differenceInCalendarDays_def num_le_def
      split: option.splits)

lemma structured_Cons:
  "structured (x # rest) \<longleftrightarrow>
     3 \<le> length (filter (\<lambda>t. within_7_days (date x) (date t)) rest) \<or> structured rest"
  by (auto simp: Let_def within_7_days_iff)

lemma subseqs_mset: "ys \<in> set (subseqs xs) \<Longrightarrow> mset ys \<subseteq># mset xs"
proof (induction xs arbitrary: ys)
  case Nil
  then show ?case by simp
next
  case (Cons x xs)
  then consider zs where "ys = x # zs" "zs \<in> set (subseqs xs)" | "ys \<in> set (subseqs xs)"
    by (auto simp: Let_def)
  then show ?case
  proof cases
    case 1
    with Cons.IH [of zs] show ?thesis by simp
  next
    case 2
    with Cons.IH [of ys] show ?thesis
      by (simp add: submset_add)
  qed
qed

lemma mset_subseqs: "M \<subseteq># mset xs \<Longrightarrow> \<exists>ys \<in> set (subseqs xs). mset ys = M"
proof (induction xs arbitrary: M)
  case Nil
  then show ?case by simp
next
  case (Cons x xs)
  show ?case
  proof (cases "x \<in># M")
    case True
    from Cons.prems have "M - {#x#} \<subseteq># mset xs"
      by (simp add: submset_remove)
    from Cons.IH [OF this] obtain zs where "zs \<in> set (subseqs xs)" "mset zs = M - {#x#}"
      by blast
    with True have "x # zs \<in> set (subseqs (x # xs))" "mset (x # zs) = M"
      by (simp_all add: Let_def)
    then show ?thesis by blast
  next
    case False
    with Cons.prems have "M \<subseteq># mset xs"
      by (simp add: submset_notin)
    from Cons.IH [OF this] show ?thesis
      by (auto simp: Let_def)
  qed
qed

lemma structuring_set_mset:
  "structuring_set q \<longleftrightarrow> (\<exists>M. M \<subseteq># mset q \<and> 4 \<le> size M \<and> close_mset M)"
proof
  assume "structuring_set q"
  then obtain ys where ys: "ys \<in> set (subseqs q)" "4 \<le> length ys"
      "\<forall>a \<in> set ys. \<forall>b \<in> set ys. within_7_days (date a) (date b)"
    by (auto simp: structuring_set_def)
  then have "mset ys \<subseteq># mset q" "4 \<le> size (mset ys)" "close_mset (mset ys)"
    by (simp_all add: subseqs_mset close_mset_def)
  then show "\<exists>M. M \<subseteq># mset q \<and> 4 \<le> size M \<and> close_mset M" by blast
next
  assume "\<exists>M. M \<subseteq># mset q \<and> 4 \<le> size M \<and> close_mset M"
  then obtain M where M: "M \<subseteq># mset q" "4 \<le> size M" "close_mset M" by blast
  from mset_subseqs [OF M(1)] obtain ys where ys: "ys \<in> set (subseqs q)" "mset ys = M"
    by blast
  from ys(2) M(2,3) have "4 \<le> length ys"
      "\<forall>a \<in> set ys. \<forall>b \<in> set ys. within_7_days (date a) (date b)"
    by (auto simp: close_mset_def)
  with ys(1) show "structuring_set q"
    by (auto simp: structuring_set_def)
qed

text \<open>Whatever the order of the list, a close selection of four makes the loop succeed.\<close>

lemma structured_if_close:
  "M \<subseteq># mset xs \<Longrightarrow> 4 \<le> size M \<Longrightarrow> close_mset M \<Longrightarrow> structured xs"
proof (induction xs arbitrary: M)
  case Nil
  then show ?case by simp
next
  case (Cons x rest)
  show ?case
  proof (cases "x \<in># M")
    case False
    with Cons.prems(1) have "M \<subseteq># mset rest" by (simp add: submset_notin)
    from Cons.IH [OF this Cons.prems(2,3)] show ?thesis
      unfolding structured_Cons by simp
  next
    case True
    let ?P = "\<lambda>t. within_7_days (date x) (date t)"
    let ?M' = "M - {#x#}"
    from Cons.prems(1) have sub: "?M' \<subseteq># mset rest" by (simp add: submset_remove)
    have all: "?P t" if "t \<in># ?M'" for t
      using Cons.prems(3) True that by (auto simp: close_mset_def dest: in_diffD)
    have "filter_mset ?P ?M' = ?M'"
    proof (rule multiset_eqI)
      fix a
      show "count (filter_mset ?P ?M') a = count ?M' a"
      proof (cases "?P a")
        case True
        then show ?thesis by (simp only: count_filter_mset if_True)
      next
        case False
        with all [of a] have "a \<notin># ?M'" by blast
        then have "count ?M' a = 0" by (simp only: not_in_iff)
        with False show ?thesis by (simp only: count_filter_mset if_False)
      qed
    qed
    with sub have "?M' \<subseteq># filter_mset ?P (mset rest)"
      by (metis multiset_filter_mono)
    then have "size ?M' \<le> size (filter_mset ?P (mset rest))"
      by (rule size_mset_mono)
    moreover from True Cons.prems(2) have "3 \<le> size ?M'"
      by (simp add: size_Diff_singleton)
    ultimately have "3 \<le> length (filter ?P rest)"
      by (simp flip: mset_filter)
    then show ?thesis unfolding structured_Cons by simp
  qed
qed

lemma within_7_daysD:
  "within_7_days a b \<Longrightarrow> \<exists>x y. parseISO a = Some x \<and> parseISO b = Some y \<and> \<bar>x - y\<bar> \<le> 7"
  by (auto simp: within_7_days_def split: option.splits)

lemma within_7_daysI:
  "parseISO a = Some x \<Longrightarrow> parseISO b = Some y \<Longrightarrow> \<bar>x - y\<bar> \<le> 7 \<Longrightarrow> within_7_days a b"
  by (simp add: within_7_days_def)

lemma submset_size_eq: "M \<subseteq># N \<Longrightarrow> size N \<le> size M \<Longrightarrow> M = N"
proof (rule ccontr)
  assume sub: "M \<subseteq># N" and le: "size N \<le> size M" and "M \<noteq> N"
  then have "M \<subset># N" by (simp add: subset_mset_def)
  then have "size M < size N" by (rule mset_subset_size)
  with le show False by simp
qed

text \<open>In a list in date order, a window of the loop is a close selection.\<close>

lemma window_close:
  assumes sorted: "\<forall>t \<in> set rest. date x \<le> date t"
    and enough: "3 \<le> length (filter (\<lambda>t. within_7_days (date x) (date t)) rest)"
  shows "close_mset (mset (x # filter (\<lambda>t. within_7_days (date x) (date t)) rest))"
proof -
  let ?w = "filter (\<lambda>t. within_7_days (date x) (date t)) rest"
  from enough obtain t0 where "t0 \<in> set ?w" by (cases ?w) auto
  then have "within_7_days (date x) (date t0)" by simp
  then obtain dx where dx: "parseISO (date x) = Some dx"
    by (auto dest: within_7_daysD)
  have range: "\<exists>da. parseISO (date a) = Some da \<and> dx \<le> da \<and> da \<le> dx + 7"
    if "a \<in> set (x # ?w)" for a
  proof (cases "a = x")
    case True
    with dx show ?thesis by simp
  next
    case False
    with that have a: "a \<in> set rest" "within_7_days (date x) (date a)" by simp_all
    from a(2) dx obtain da where da: "parseISO (date a) = Some da" "\<bar>dx - da\<bar> \<le> 7"
      by (auto dest: within_7_daysD)
    from sorted a(1) have "date x \<le> date a" by blast
    with dx da(1) have "dx \<le> da" by (rule parseISO_le)
    with da show ?thesis by simp
  qed
  have "within_7_days (date a) (date b)" if "a \<in> set (x # ?w)" "b \<in> set (x # ?w)" for a b
  proof -
    from range [OF that(1)] obtain da where da: "parseISO (date a) = Some da" "dx \<le> da" "da \<le> dx + 7"
      by blast
    from range [OF that(2)] obtain db where db: "parseISO (date b) = Some db" "dx \<le> db" "db \<le> dx + 7"
      by blast
    from da(2,3) db(2,3) have "\<bar>da - db\<bar> \<le> 7" by simp
    with da(1) db(1) show ?thesis by (rule within_7_daysI)
  qed
  then show ?thesis
    unfolding close_mset_def set_mset_mset by blast
qed

lemma close_if_structured:
  "sorted (map date xs) \<Longrightarrow> structured xs \<Longrightarrow>
   \<exists>M. M \<subseteq># mset xs \<and> 4 \<le> size M \<and> close_mset M"
proof (induction xs)
  case Nil
  then show ?case by simp
next
  case (Cons x rest)
  let ?w = "filter (\<lambda>t. within_7_days (date x) (date t)) rest"
  from Cons.prems(1) have later: "\<forall>t \<in> set rest. date x \<le> date t"
    and tail: "sorted (map date rest)"
    by simp_all
  from Cons.prems(2) consider "3 \<le> length ?w" | "structured rest"
    unfolding structured_Cons by blast
  then show ?case
  proof cases
    case 1
    have "mset (x # ?w) \<subseteq># mset (x # rest)" by simp
    moreover from 1 have "4 \<le> size (mset (x # ?w))" by (simp only: size_mset) simp
    moreover from later 1 have "close_mset (mset (x # ?w))" by (rule window_close)
    ultimately show ?thesis by blast
  next
    case 2
    from Cons.IH [OF tail 2] obtain M where "M \<subseteq># mset rest" "4 \<le> size M" "close_mset M"
      by blast
    then have "M \<subseteq># mset (x # rest)" "4 \<le> size M" "close_mset M"
      by (simp_all add: submset_add)
    then show ?thesis by blast
  qed
qed

lemma structured_sorted_iff: "structured (sort_key date q) \<longleftrightarrow> structuring_set q"
proof
  assume "structured (sort_key date q)"
  with close_if_structured [of "sort_key date q"]
  have "\<exists>M. M \<subseteq># mset (sort_key date q) \<and> 4 \<le> size M \<and> close_mset M"
    by simp
  then show "structuring_set q"
    by (simp add: structuring_set_mset)
next
  assume "structuring_set q"
  then obtain M where "M \<subseteq># mset q" "4 \<le> size M" "close_mset M"
    unfolding structuring_set_mset by blast
  then show "structured (sort_key date q)"
    by (intro structured_if_close [of M]) simp_all
qed

lemma structuring_set_few: "length q \<le> 3 \<Longrightarrow> \<not> structuring_set q"
proof
  assume few: "length q \<le> 3" and "structuring_set q"
  then obtain M where M: "M \<subseteq># mset q" "4 \<le> size M"
    unfolding structuring_set_mset by blast
  from M(1) have "size M \<le> size (mset q)" by (rule size_mset_mono)
  with M(2) few show False by simp
qed

lemma structuring_set_four_apart:
  assumes "length q = 4" "a \<in> set q" "b \<in> set q" "\<not> within_7_days (date a) (date b)"
  shows "\<not> structuring_set q"
proof
  assume "structuring_set q"
  then obtain M where M: "M \<subseteq># mset q" "4 \<le> size M" "close_mset M"
    unfolding structuring_set_mset by blast
  from M(1,2) assms(1) have "M = mset q" by (intro submset_size_eq) simp_all
  with M(3) assms(2,3) have "within_7_days (date a) (date b)"
    by (simp add: close_mset_def)
  with assms(4) show False by simp
qed

lemma cashIn_client_txs:
  assumes "dated lb txs"
  shows "cashIn (sort_key date (client_txs lb txs c)) = sort_key date (qualifying lb txs c)"
proof -
  have "filter (\<lambda>t. direction t = ''in'' \<and> tx_method t = ''cash'' \<and> currency t = ''AUD''
                \<and> amount t \<ge> 9600 \<and> amount t \<le> 9999) (window_txs lb txs c)
        = qualifying lb txs c"
    unfolding window_txs_def qualifying_def filter_filter
    by (rule filter_cong) auto
  then show ?thesis
    by (simp add: cashIn_def filter_sort client_txs_window [OF assms])
qed

lemma structuring_fired_iff:
  "reason ''behaviour'' structuring_text 12 \<in> set (profile_reasons lb c @ behaviour_reasons txlist)
   \<longleftrightarrow> structured (cashIn txlist)"
  by (simp add: profile_reasons_def behaviour_reasons_def reason_def structuring_text_def
      corridor_text_def large_text_def)

text \<open>
  Claim C2. Let the lookback start and the dates of the transactions be calendar
  dates. For the client at any position of the input, the result carries the
  structuring reason (12 points) exactly when, among the client's transactions
  dated on or after the lookback start that are cash, inbound, in AUD and of an
  amount from 9600 to 9999, some selection of at least four has dates that span
  at most seven calendar days. In particular the reason is absent when at most
  three transactions qualify, and when exactly four qualify and two of them are
  more than seven days apart.
\<close>

theorem structuring_reason:
  assumes "i < length clients" and "dated lb txs"
  shows "(tag_reason (reason ''behaviour'' structuring_text 12)
            \<in> set (reasons (scores (scoreAll clients txs lb) ! i))
          \<longleftrightarrow> structuring_set (qualifying lb txs (clients ! i)))
       \<and> (length (qualifying lb txs (clients ! i)) \<le> 3 \<longrightarrow>
            tag_reason (reason ''behaviour'' structuring_text 12)
              \<notin> set (reasons (scores (scoreAll clients txs lb) ! i)))
       \<and> (length (qualifying lb txs (clients ! i)) = 4
            \<and> (\<exists>a \<in> set (qualifying lb txs (clients ! i)).
                 \<exists>b \<in> set (qualifying lb txs (clients ! i)).
                   \<not> within_7_days (date a) (date b)) \<longrightarrow>
            tag_reason (reason ''behaviour'' structuring_text 12)
              \<notin> set (reasons (scores (scoreAll clients txs lb) ! i)))"
proof -
  let ?q = "qualifying lb txs (clients ! i)"
  have "reasons (scores (scoreAll clients txs lb) ! i)
        = map tag_reason (profile_reasons lb (clients ! i)
            @ behaviour_reasons (sort_key date (client_txs lb txs (clients ! i))))"
    using assms(1) by (simp add: scoreAll_scores reasons_score_client)
  then have fired: "tag_reason (reason ''behaviour'' structuring_text 12)
            \<in> set (reasons (scores (scoreAll clients txs lb) ! i))
          \<longleftrightarrow> structuring_set ?q"
    by (simp only: tagged_mem structuring_fired_iff cashIn_client_txs [OF assms(2)]
          structured_sorted_iff)
  have few: "\<not> structuring_set ?q" if "length ?q \<le> 3"
    using that by (rule structuring_set_few)
  have apart: "\<not> structuring_set ?q"
    if "length ?q = 4 \<and> (\<exists>a \<in> set ?q. \<exists>b \<in> set ?q. \<not> within_7_days (date a) (date b))"
    using that structuring_set_four_apart [of ?q] by blast
  from few apart show ?thesis
    unfolding fired by blast
qed

theorem structuring_reason_witness:
  "dated example_lookback
          [cash_deposit ''c1'' ''2024-03-08'', cash_deposit ''c1'' ''2024-03-01'',
           cash_deposit ''c1'' ''2023-12-31'', cash_deposit ''c1'' ''2024-03-05'',
           cash_deposit ''c1'' ''2024-03-03'']
   \<and> tag_reason (reason ''behaviour'' structuring_text 12)
     \<in> set (reasons (scores (scoreAll [plain_client ''c1'']
          [cash_deposit ''c1'' ''2024-03-08'', cash_deposit ''c1'' ''2024-03-01'',
           cash_deposit ''c1'' ''2023-12-31'', cash_deposit ''c1'' ''2024-03-05'',
           cash_deposit ''c1'' ''2024-03-03'']
          example_lookback) ! 0))
   \<and> structuring_set (qualifying example_lookback
          [cash_deposit ''c1'' ''2024-03-08'', cash_deposit ''c1'' ''2024-03-01'',
           cash_deposit ''c1'' ''2023-12-31'', cash_deposit ''c1'' ''2024-03-05'',
           cash_deposit ''c1'' ''2024-03-03'']
          (plain_client ''c1''))
   \<and> length (qualifying example_lookback
          [cash_deposit ''c1'' ''2024-03-08'', cash_deposit ''c1'' ''2024-03-01'',
           cash_deposit ''c1'' ''2023-12-31'', cash_deposit ''c1'' ''2024-03-05'']
          (plain_client ''c1'')) = 3
   \<and> tag_reason (reason ''behaviour'' structuring_text 12)
     \<notin> set (reasons (scores (scoreAll [plain_client ''c1'']
          [cash_deposit ''c1'' ''2024-03-08'', cash_deposit ''c1'' ''2024-03-01'',
           cash_deposit ''c1'' ''2023-12-31'', cash_deposit ''c1'' ''2024-03-05'']
          example_lookback) ! 0))
   \<and> length (qualifying example_lookback
          [cash_deposit ''c1'' ''2024-03-09'', cash_deposit ''c1'' ''2024-03-01'',
           cash_deposit ''c1'' ''2024-03-05'', cash_deposit ''c1'' ''2024-03-03'']
          (plain_client ''c1'')) = 4
   \<and> daysBetween ''2024-03-09'' ''2024-03-01'' = Some 8
   \<and> tag_reason (reason ''behaviour'' structuring_text 12)
     \<notin> set (reasons (scores (scoreAll [plain_client ''c1'']
          [cash_deposit ''c1'' ''2024-03-09'', cash_deposit ''c1'' ''2024-03-01'',
           cash_deposit ''c1'' ''2024-03-05'', cash_deposit ''c1'' ''2024-03-03'']
          example_lookback) ! 0))"
proof -
  let ?c = "plain_client ''c1''"
  let ?A = "[cash_deposit ''c1'' ''2024-03-08'', cash_deposit ''c1'' ''2024-03-01'',
             cash_deposit ''c1'' ''2023-12-31'', cash_deposit ''c1'' ''2024-03-05'',
             cash_deposit ''c1'' ''2024-03-03'']"
  let ?B = "[cash_deposit ''c1'' ''2024-03-08'', cash_deposit ''c1'' ''2024-03-01'',
             cash_deposit ''c1'' ''2023-12-31'', cash_deposit ''c1'' ''2024-03-05'']"
  let ?B' = "[cash_deposit ''c1'' ''2024-03-08'', cash_deposit ''c1'' ''2024-03-01'',
             cash_deposit ''c1'' ''2024-03-05'']"
  let ?C = "[cash_deposit ''c1'' ''2024-03-09'', cash_deposit ''c1'' ''2024-03-01'',
             cash_deposit ''c1'' ''2024-03-05'', cash_deposit ''c1'' ''2024-03-03'']"
  let ?tag = "tag_reason (reason ''behaviour'' structuring_text 12)"
  have pos: "(0::nat) < length [?c]" by simp
  have datedA: "dated example_lookback ?A"
    and datedB: "dated example_lookback ?B"
    and datedC: "dated example_lookback ?C"
    by (simp_all add: dated_def calendar_date_parseISO example_lookback_def example_fields
          parseISO_examples)
  have firedA: "?tag \<in> set (reasons (scores (scoreAll [?c] ?A example_lookback) ! 0))"
    by (simp add: plain_client_def cash_deposit_def example_lookback_def js_eval
          parseISO_examples num_eval rule_eval tally_eval loop_eval Let_def)
  with structuring_reason [OF pos datedA]
  have setA: "structuring_set (qualifying example_lookback ?A ?c)"
    by (simp only: nth_Cons_0; blast)
  have qB: "qualifying example_lookback ?B ?c = ?B'"
    by (simp add: qualifying_def on_or_after_def plain_client_def cash_deposit_def
          example_lookback_def parseISO_examples)
  then have lenB: "length (qualifying example_lookback ?B ?c) = 3" by simp
  then have "length (qualifying example_lookback ?B ?c) \<le> 3" by simp
  with structuring_reason [OF pos datedB]
  have notB: "?tag \<notin> set (reasons (scores (scoreAll [?c] ?B example_lookback) ! 0))"
    by (simp only: nth_Cons_0; blast)
  have qC: "qualifying example_lookback ?C ?c = ?C"
    by (simp add: qualifying_def on_or_after_def plain_client_def cash_deposit_def
          example_lookback_def parseISO_examples)
  then have lenC: "length (qualifying example_lookback ?C ?c) = 4" by simp
  have days: "daysBetween ''2024-03-09'' ''2024-03-01'' = Some 8"
    by (simp add: parseISO_examples num_eval)
  have far: "\<not> within_7_days ''2024-03-09'' ''2024-03-01''"
    by (simp add: within_7_days_def parseISO_examples)
  have "\<exists>a \<in> set (qualifying example_lookback ?C ?c).
          \<exists>b \<in> set (qualifying example_lookback ?C ?c). \<not> within_7_days (date a) (date b)"
    unfolding qC using far by (simp add: example_fields)
  with lenC structuring_reason [OF pos datedC]
  have notC: "?tag \<notin> set (reasons (scores (scoreAll [?c] ?C example_lookback) ! 0))"
    by (simp only: nth_Cons_0; blast)
  from datedA firedA setA lenB notB lenC days notC show ?thesis
    by (intro conjI)
qed

end
